theory Spec2Isabelle
  imports Main "HOL-Library.AList"
begin

section \<open>JavaScript strings\<close>

text \<open>
  A JavaScript string is a sequence of UTF-16 code units; \<open>length\<close>, \<open>slice\<close>, the regular
  expressions and \<open>trim\<close> of \<open>src/agents/pi-embedded-subscribe.ts\<close> all count and compare code
  units. A code unit is modelled as a natural number (every JavaScript string is such a
  list), and \<open>js\<close> turns an ASCII literal into its code units.
\<close>

type_synonym jstring = "nat list"

definition cu :: "char \<Rightarrow> nat" where
  "cu c = of_char c"

definition js :: "string \<Rightarrow> jstring" where
  "js s = map cu s"

text \<open>
  The characters matched by \<open>\s\<close> and removed by \<open>trim\<close>, \<open>trimStart\<close> and \<open>trimEnd\<close>:
  ECMAScript's WhiteSpace and LineTerminator (TAB, LF, VT, FF, CR, SP, NBSP, U+1680,
  U+2000..U+200A, U+2028, U+2029, U+202F, U+205F, U+3000, U+FEFF).
\<close>

definition is_ws :: "nat \<Rightarrow> bool" where
  "is_ws c \<longleftrightarrow>
     (9 \<le> c \<and> c \<le> 13) \<or> c = 32 \<or> c = 160 \<or> c = 5760 \<or> (8192 \<le> c \<and> c \<le> 8202) \<or>
     c = 8232 \<or> c = 8233 \<or> c = 8239 \<or> c = 8287 \<or> c = 12288 \<or> c = 65279"

text \<open>
  Case folding. The patterns hold ASCII letters only and carry the flag \<open>i\<close> without \<open>u\<close>:
  there a code unit of 128 or more never matches an ASCII letter, so a letter of the
  pattern matches exactly its two ASCII cases. \<open>toLowerCase\<close> is applied by the source to
  a matched tag only, which consists of \<open><\<close>, \<open>/\<close>, \<open>>\<close>, white space and ASCII letters.
\<close>

definition lower :: "nat \<Rightarrow> nat" where
  "lower c = (if 65 \<le> c \<and> c \<le> 90 then c + 32 else c)"

definition toLowerCase :: "jstring \<Rightarrow> jstring" where
  "toLowerCase s = map lower s"

definition slice :: "jstring \<Rightarrow> nat \<Rightarrow> nat \<Rightarrow> jstring" where
  "slice s a b = take (b - a) (drop a s)"

definition trimStart :: "jstring \<Rightarrow> jstring" where
  "trimStart s = dropWhile is_ws s"

definition trimEnd :: "jstring \<Rightarrow> jstring" where
  "trimEnd s = rev (dropWhile is_ws (rev s))"

definition trim :: "jstring \<Rightarrow> jstring" where
  "trim s = trimEnd (trimStart s)"

definition startsWith :: "jstring \<Rightarrow> jstring \<Rightarrow> bool" where
  "startsWith s t \<longleftrightarrow> take (length t) s = t"

fun includes_str :: "jstring \<Rightarrow> jstring \<Rightarrow> bool" where
  "includes_str [] t = (t = [])"
| "includes_str (c # cs) t = (startsWith (c # cs) t \<or> includes_str cs t)"

text \<open>\<open>s.lastIndexOf(t)\<close>: the last index at which \<open>t\<close> occurs in \<open>s\<close>, or -1.\<close>

fun lastIndexOf_from :: "jstring \<Rightarrow> jstring \<Rightarrow> nat \<Rightarrow> int \<Rightarrow> int" where
  "lastIndexOf_from [] t i found = (if t = [] then int i else found)"
| "lastIndexOf_from (c # cs) t i found =
     lastIndexOf_from cs t (Suc i) (if startsWith (c # cs) t then int i else found)"

definition lastIndexOf :: "jstring \<Rightarrow> jstring \<Rightarrow> int" where
  "lastIndexOf s t = lastIndexOf_from s t 0 (- 1)"

section \<open>Regular expressions\<close>

text \<open>
  A pattern is modelled by its anchored matcher: given the text from some position on, the
  length of the match that begins there, or \<open>None\<close>. The patterns of the source are built
  from \<open>\s*\<close>, single characters, optional single characters and case-insensitive literals;
  white space, \<open>/\<close>, \<open><\<close>, \<open>>\<close> and letters are pairwise distinct, so the greedy choice at
  each quantifier is the only one that can succeed and no backtracking is lost.
\<close>

type_synonym regex = "jstring \<Rightarrow> nat option"

definition skip_ws :: "jstring \<Rightarrow> jstring" where
  "skip_ws s = dropWhile is_ws s"

fun chr1 :: "nat \<Rightarrow> jstring \<Rightarrow> jstring option" where
  "chr1 c [] = None"
| "chr1 c (d # r) = (if d = c then Some r else None)"

definition opt_chr :: "nat \<Rightarrow> jstring \<Rightarrow> jstring" where
  "opt_chr c s = (case chr1 c s of Some r \<Rightarrow> r | None \<Rightarrow> s)"

fun lit_ci :: "jstring \<Rightarrow> jstring \<Rightarrow> jstring option" where
  "lit_ci [] s = Some s"
| "lit_ci (p # ps) [] = None"
| "lit_ci (p # ps) (c # cs) = (if lower c = p then lit_ci ps cs else None)"

definition opt_lit_ci :: "jstring \<Rightarrow> jstring \<Rightarrow> jstring" where
  "opt_lit_ci p s = (case lit_ci p s of Some r \<Rightarrow> r | None \<Rightarrow> s)"

definition matched :: "jstring \<Rightarrow> jstring option \<Rightarrow> nat option" where
  "matched s rest = map_option (\<lambda>r. length s - length r) rest"

text \<open>\<^verbatim>\<open>THINKING_TAG_RE = /<\s*\/?\s*think(?:ing)?\s*>/gi\<close>\<close>

definition THINKING_TAG_RE :: regex where
  "THINKING_TAG_RE s = matched s
     (Option.bind (chr1 (cu CHR ''<'') s) (\<lambda>r1.
      Option.bind (lit_ci (js ''think'') (skip_ws (opt_chr (cu CHR ''/'') (skip_ws r1)))) (\<lambda>r2.
      chr1 (cu CHR ''>'') (skip_ws (opt_lit_ci (js ''ing'') r2)))))"

text \<open>\<^verbatim>\<open>THINKING_OPEN_RE = /<\s*think(?:ing)?\s*>/i\<close>\<close>

definition THINKING_OPEN_RE :: regex where
  "THINKING_OPEN_RE s = matched s
     (Option.bind (chr1 (cu CHR ''<'') s) (\<lambda>r1.
      Option.bind (lit_ci (js ''think'') (skip_ws r1)) (\<lambda>r2.
      chr1 (cu CHR ''>'') (skip_ws (opt_lit_ci (js ''ing'') r2)))))"

text \<open>\<^verbatim>\<open>THINKING_CLOSE_RE = /<\s*\/\s*think(?:ing)?\s*>/i\<close>\<close>

definition THINKING_CLOSE_RE :: regex where
  "THINKING_CLOSE_RE s = matched s
     (Option.bind (chr1 (cu CHR ''<'') s) (\<lambda>r1.
      Option.bind (chr1 (cu CHR ''/'') (skip_ws r1)) (\<lambda>r2.
      Option.bind (lit_ci (js ''think'') (skip_ws r2)) (\<lambda>r3.
      chr1 (cu CHR ''>'') (skip_ws (opt_lit_ci (js ''ing'') r3))))))"

text \<open>\<^verbatim>\<open>FINAL_START_RE = /<\s*final\s*>/i\<close>\<close>

definition FINAL_START_RE :: regex where
  "FINAL_START_RE s = matched s
     (Option.bind (chr1 (cu CHR ''<'') s) (\<lambda>r1.
      Option.bind (lit_ci (js ''final'') (skip_ws r1)) (\<lambda>r2.
      chr1 (cu CHR ''>'') (skip_ws r2))))"

text \<open>\<^verbatim>\<open>FINAL_END_RE = /<\s*\/\s*final\s*>/i\<close>\<close>

definition FINAL_END_RE :: regex where
  "FINAL_END_RE s = matched s
     (Option.bind (chr1 (cu CHR ''<'') s) (\<lambda>r1.
      Option.bind (chr1 (cu CHR ''/'') (skip_ws r1)) (\<lambda>r2.
      Option.bind (lit_ci (js ''final'') (skip_ws r2)) (\<lambda>r3.
      chr1 (cu CHR ''>'') (skip_ws r3)))))"

text \<open>
  \<open>re.exec(s)\<close> for a pattern without the flag \<open>g\<close>: the leftmost match, as its index and
  length. \<open>re.test(s)\<close> says whether there is one and \<open>s.replace(re, "")\<close> removes it.
\<close>

fun exec_from :: "regex \<Rightarrow> nat \<Rightarrow> jstring \<Rightarrow> (nat \<times> nat) option" where
  "exec_from re i [] = map_option (Pair i) (re [])"
| "exec_from re i (c # cs) =
     (case re (c # cs) of Some n \<Rightarrow> Some (i, n) | None \<Rightarrow> exec_from re (Suc i) cs)"

definition re_exec :: "regex \<Rightarrow> jstring \<Rightarrow> (nat \<times> nat) option" where
  "re_exec re s = exec_from re 0 s"

definition re_test :: "regex \<Rightarrow> jstring \<Rightarrow> bool" where
  "re_test re s \<longleftrightarrow> re_exec re s \<noteq> None"

definition replace_first :: "regex \<Rightarrow> jstring \<Rightarrow> jstring" where
  "replace_first re s =
     (case re_exec re s of None \<Rightarrow> s | Some (i, n) \<Rightarrow> take i s @ drop (i + n) s)"

text \<open>
  \<open>s.matchAll(re)\<close> for a pattern with the flag \<open>g\<close>: the matches from left to right, each
  search resuming where the previous match ended (one further after an empty match).
\<close>

fun matchAll :: "regex \<Rightarrow> nat \<Rightarrow> jstring \<Rightarrow> (nat \<times> nat) list" where
  "matchAll re i [] = (case re [] of Some n \<Rightarrow> [(i, n)] | None \<Rightarrow> [])"
| "matchAll re i (c # cs) =
     (case re (c # cs) of
        Some n \<Rightarrow> (i, n) # matchAll re (i + max 1 n) (drop (max 1 n - 1) cs)
      | None \<Rightarrow> matchAll re (Suc i) cs)"

section \<open>Thinking segments\<close>

text \<open>
  \<open>stripThinkingSegments\<close>: the body of the \<open>for\<close> loop over the matches is \<open>strip_step\<close>,
  on the loop's variables \<open>(result, lastIndex, inThinking)\<close>. The pattern carries the flag
  \<open>g\<close>, so \<open>test\<close> starts at the pattern's \<open>lastIndex\<close>; that is 0 at every call, since a
  failed \<open>test\<close> resets it and a successful one is followed by \<open>lastIndex = 0\<close>.
\<close>

definition strip_step :: "jstring \<Rightarrow> jstring \<times> nat \<times> bool \<Rightarrow> nat \<times> nat \<Rightarrow> jstring \<times> nat \<times> bool" where
  "strip_step txt st mt =
     (case st of (result, lastIndex, inThinking) \<Rightarrow>
      case mt of (idx, len) \<Rightarrow>
        (let result' = (if \<not> inThinking then result @ slice txt lastIndex idx else result);
             tag = toLowerCase (slice txt idx (idx + len))
         in (result', idx + len, \<not> includes_str tag (js ''/''))))"

definition stripThinkingSegments :: "jstring \<Rightarrow> jstring" where
  "stripThinkingSegments txt =
     (if txt = [] \<or> \<not> re_test THINKING_TAG_RE txt then txt
      else
        (case foldl (strip_step txt) ([], 0, False) (matchAll THINKING_TAG_RE 0 txt) of
           (result, lastIndex, inThinking) \<Rightarrow>
             if \<not> inThinking then result @ drop lastIndex txt else result))"

definition stripUnpairedThinkingTags :: "jstring \<Rightarrow> jstring" where
  "stripUnpairedThinkingTags txt =
     (if txt = [] then txt
      else
        (let hasOpen = re_test THINKING_OPEN_RE txt;
             hasClose = re_test THINKING_CLOSE_RE txt
         in if hasOpen \<and> hasClose then txt
            else if \<not> hasOpen then replace_first THINKING_CLOSE_RE txt
            else if \<not> hasClose then replace_first THINKING_OPEN_RE txt
            else txt))"

section \<open>Tool results\<close>

text \<open>
  A tool result is an arbitrary JavaScript value. Objects are association lists in
  insertion order; \<open>{...entry, k: v}\<close> keeps the position of an existing key and appends a
  new one, which is what \<open>AList.update\<close> does.
\<close>

datatype json =
    JUndefined
  | JNull
  | JBool bool
  | JNum int
  | JStr jstring
  | JArr "json list"
  | JObj "(jstring \<times> json) list"

definition TOOL_RESULT_MAX_CHARS :: nat where
  "TOOL_RESULT_MAX_CHARS = 8000"

text \<open>The suffix \<^verbatim>\<open>"\n...(truncated)..."\<close>, whose two ellipses are the single character U+2026.\<close>

definition truncated_suffix :: jstring where
  "truncated_suffix = [10, 8230] @ js ''(truncated)'' @ [8230]"

definition truncateToolText :: "jstring \<Rightarrow> jstring" where
  "truncateToolText t =
     (if length t \<le> TOOL_RESULT_MAX_CHARS then t
      else slice t 0 TOOL_RESULT_MAX_CHARS @ truncated_suffix)"

text \<open>The callback of \<open>content.map\<close> in \<open>sanitizeToolResult\<close>.\<close>

definition sanitize_item :: "json \<Rightarrow> json" where
  "sanitize_item item =
     (case item of
        JObj entry \<Rightarrow>
          (let ty = (case map_of entry (js ''type'') of Some (JStr t) \<Rightarrow> Some t | _ \<Rightarrow> None)
           in case (ty = Some (js ''text''), map_of entry (js ''text'')) of
                (True, Some (JStr t)) \<Rightarrow> JObj (AList.update (js ''text'') (JStr (truncateToolText t)) entry)
              | _ \<Rightarrow>
                if ty = Some (js ''image'') then
                  (let data = (case map_of entry (js ''data'') of Some (JStr d) \<Rightarrow> Some d | _ \<Rightarrow> None);
                       bytes = (case data of
                                  Some d \<Rightarrow> if d \<noteq> [] then JNum (int (length d)) else JUndefined
                                | None \<Rightarrow> JUndefined);
                       cleaned = AList.delete (js ''data'') entry
                   in JObj (AList.update (js ''omitted'') (JBool True)
                             (AList.update (js ''bytes'') bytes cleaned)))
                else item)
      | _ \<Rightarrow> item)"

definition sanitizeToolResult :: "json \<Rightarrow> json" where
  "sanitizeToolResult result =
     (case result of
        JObj rec \<Rightarrow>
          (case map_of rec (js ''content'') of
             Some (JArr content) \<Rightarrow>
               JObj (AList.update (js ''content'') (JArr (map sanitize_item content)) rec)
           | _ \<Rightarrow> result)
      | _ \<Rightarrow> result)"

section \<open>The subscriber: parameters and state\<close>

datatype breakPreference = by_paragraph | by_newline | by_sentence

record BlockReplyChunking =
  minChars :: int
  maxChars :: int
  breakPreference :: "breakPreference option"

datatype blockReplyBreak = at_text_end | at_message_end

record payload =
  ptext :: jstring
  mediaUrls :: "jstring list option"

record AgentMessage =
  role :: jstring
  content :: json

text \<open>The \<open>assistantMessageEvent\<close> of a \<open>message_update\<close>; a field that is not a string reads as \<open>""\<close>.\<close>

record assistantMessageEvent =
  evtType :: jstring
  delta :: jstring
  evtContent :: jstring

text \<open>
  The parameters of \<open>subscribeEmbeddedPiSession\<close>. A callback is modelled by whether it is
  given; what it receives is logged in the state. \<open>splitMediaFromOutput\<close>
  (\<open>../media/parse.js\<close>), \<open>extractAssistantText\<close> and \<open>inferToolMetaFromArgs\<close>
  (\<open>./pi-embedded-utils.js\<close>) are imported by the source from files that are not at hand
  and are parameters here: every result below holds for all of them.
\<close>

record params =
  hasOnBlockReply :: bool
  hasOnPartialReply :: bool
  blockReplyBreakParam :: "blockReplyBreak option"
  blockReplyChunking :: "BlockReplyChunking option"
  enforceFinalTag :: bool
  splitMediaFromOutput :: "jstring \<Rightarrow> jstring \<times> jstring list option"
  extractAssistantText :: "AgentMessage \<Rightarrow> jstring"
  inferToolMetaFromArgs :: "jstring \<Rightarrow> json \<Rightarrow> jstring option"

definition blockReplyBreak :: "params \<Rightarrow> blockReplyBreak" where
  "blockReplyBreak p = (case blockReplyBreakParam p of Some b \<Rightarrow> b | None \<Rightarrow> at_text_end)"

text \<open>What \<open>emitAgentEvent\<close> is called with.\<close>

datatype agent_event =
    tool_start jstring jstring json
  | tool_update jstring jstring json
  | tool_result jstring jstring "jstring option" bool json
  | assistant_text payload

text \<open>A call of \<open>compactionRetryResolve\<close>: the promise, and the two counters at that moment.\<close>

record resolution =
  resolved :: nat
  pendingThen :: nat
  inFlightThen :: bool

text \<open>
  The variables closed over by the handlers, followed by the logs of what the subscriber
  sends out: the payloads given to \<open>onPartialReply\<close> and \<open>onBlockReply\<close>, the text handed
  to \<open>splitMediaFromOutput\<close> for each block, the events given to \<open>emitAgentEvent\<close>, and the
  settled promises. A promise is a number; \<open>promiseCount\<close> numbers the next \<open>new Promise\<close>.
  The tool debouncer (\<open>../auto-reply/tool-meta.js\<close>, not at hand), \<open>onToolResult\<close>,
  \<open>onAgentEvent\<close> and the runtime log receive neither assistant text nor tool results
  and are left out.
\<close>

record state =
  assistantTexts :: "jstring list"
  toolMetas :: "(jstring \<times> jstring option) list"
  toolMetaById :: "(jstring \<times> jstring option) list"
  deltaBuffer :: jstring
  blockBuffer :: jstring
  lastStreamedAssistant :: "jstring option"
  lastBlockReplyText :: "jstring option"
  assistantTextBaseline :: nat
  compactionInFlight :: bool
  pendingCompactionRetry :: nat
  compactionRetryResolve :: "nat option"
  compactionRetryPromise :: "nat option"
  promiseCount :: nat
  partialReplies :: "payload list"
  blockReplies :: "payload list"
  blockChunks :: "jstring list"
  agentEvents :: "agent_event list"
  resolutions :: "resolution list"
  microtaskResolutions :: "(nat \<times> bool) list"

definition initial :: state where
  "initial = \<lparr> assistantTexts = [], toolMetas = [], toolMetaById = [], deltaBuffer = [],
     blockBuffer = [], lastStreamedAssistant = None, lastBlockReplyText = None,
     assistantTextBaseline = 0, compactionInFlight = False, pendingCompactionRetry = 0,
     compactionRetryResolve = None, compactionRetryPromise = None, promiseCount = 0,
     partialReplies = [], blockReplies = [], blockChunks = [], agentEvents = [],
     resolutions = [], microtaskResolutions = [] \<rparr>"

section \<open>Compaction retry\<close>

definition ensureCompactionPromise :: "state \<Rightarrow> state" where
  "ensureCompactionPromise s =
     (if compactionRetryPromise s = None then
        s\<lparr> compactionRetryPromise := Some (promiseCount s),
           compactionRetryResolve := Some (promiseCount s),
           promiseCount := Suc (promiseCount s) \<rparr>
      else s)"

definition noteCompactionRetry :: "state \<Rightarrow> state" where
  "noteCompactionRetry s =
     ensureCompactionPromise (s\<lparr> pendingCompactionRetry := pendingCompactionRetry s + 1 \<rparr>)"

text \<open>\<open>compactionRetryResolve?.()\<close>: the call is skipped when the variable is undefined.\<close>

definition call_resolve :: "state \<Rightarrow> state" where
  "call_resolve s =
     (case compactionRetryResolve s of
        None \<Rightarrow> s
      | Some q \<Rightarrow>
          s\<lparr> resolutions := resolutions s @
               [\<lparr> resolved = q, pendingThen = pendingCompactionRetry s,
                  inFlightThen = compactionInFlight s \<rparr>] \<rparr>)"

definition resolveCompactionRetry :: "state \<Rightarrow> state" where
  "resolveCompactionRetry s =
     (if pendingCompactionRetry s \<le> 0 then s
      else
        (let s1 = s\<lparr> pendingCompactionRetry := pendingCompactionRetry s - 1 \<rparr>
         in if pendingCompactionRetry s1 = 0 \<and> \<not> compactionInFlight s1 then
              (call_resolve s1)\<lparr> compactionRetryResolve := None, compactionRetryPromise := None \<rparr>
            else s1))"

definition maybeResolveCompactionWait :: "state \<Rightarrow> state" where
  "maybeResolveCompactionWait s =
     (if pendingCompactionRetry s = 0 \<and> \<not> compactionInFlight s then
        (call_resolve s)\<lparr> compactionRetryResolve := None, compactionRetryPromise := None \<rparr>
      else s)"

section \<open>The final tag\<close>

definition sanitizeFinalText :: "jstring \<Rightarrow> jstring" where
  "sanitizeFinalText txt =
     (if txt = [] then txt
      else
        (let hasStart = re_test FINAL_START_RE txt;
             hasEnd = re_test FINAL_END_RE txt
         in if hasStart \<and> \<not> hasEnd then replace_first FINAL_START_RE txt
            else if \<not> hasStart \<and> hasEnd then replace_first FINAL_END_RE txt
            else txt))"

definition extractFinalText :: "jstring \<Rightarrow> jstring option" where
  "extractFinalText txt =
     (let cleaned = sanitizeFinalText txt
      in case re_exec FINAL_START_RE cleaned of
           None \<Rightarrow> None
         | Some (startAt, startLen) \<Rightarrow>
             (let startIndex = startAt + startLen;
                  afterStart = drop startIndex cleaned;
                  endIndex = (case re_exec FINAL_END_RE afterStart of
                                Some (endAt, endLen) \<Rightarrow> endAt
                              | None \<Rightarrow> length afterStart)
              in Some (slice afterStart 0 endIndex)))"

section \<open>Block chunking\<close>

text \<open>\<^verbatim>\<open>/[.!?](?=\s|$)/g\<close>\<close>

definition SENTENCE_RE :: regex where
  "SENTENCE_RE s =
     (case s of
        [] \<Rightarrow> None
      | c # r \<Rightarrow>
          if (c = cu CHR ''.'' \<or> c = cu CHR ''!'' \<or> c = cu CHR ''?'') \<and>
             (case r of [] \<Rightarrow> True | d # _ \<Rightarrow> is_ws d)
          then Some 1 else None)"

definition findSentenceBreak :: "jstring \<Rightarrow> nat \<Rightarrow> int" where
  "findSentenceBreak window minC =
     (if window = [] then - 1
      else foldl (\<lambda>idx (at, len). if at < minC then idx else int at + 1) (- 1)
             (matchAll SENTENCE_RE 0 window))"

text \<open>
  The loop \<open>for (let i = window.length - 1; i >= minChars; i--)\<close>; the third argument is
  \<open>i + 1\<close>.
\<close>

fun whitespace_scan :: "jstring \<Rightarrow> nat \<Rightarrow> nat \<Rightarrow> int" where
  "whitespace_scan window minC 0 = - 1"
| "whitespace_scan window minC (Suc i) =
     (if i < minC then - 1
      else if is_ws (window ! i) then int i
      else whitespace_scan window minC i)"

definition findWhitespaceBreak :: "jstring \<Rightarrow> nat \<Rightarrow> int" where
  "findWhitespaceBreak window minC = whitespace_scan window minC (length window)"

text \<open>
  \<open>Math.max(1, Math.floor(minChars))\<close> and \<open>Math.max(minChars, Math.floor(maxChars))\<close>, on
  integer settings.
\<close>

definition minChars_of :: "BlockReplyChunking \<Rightarrow> nat" where
  "minChars_of c = nat (max 1 (minChars c))"

definition maxChars_of :: "BlockReplyChunking \<Rightarrow> nat" where
  "maxChars_of c = nat (max (int (minChars_of c)) (maxChars c))"

text \<open>\<open>pickBreakIndex\<close> from \<open>const window\<close> on, where the buffer holds \<open>minChars\<close> or more.\<close>

definition break_in_window :: "BlockReplyChunking \<Rightarrow> nat \<Rightarrow> nat \<Rightarrow> jstring \<Rightarrow> int" where
  "break_in_window c minC maxC buffer =
     (let window = slice buffer 0 (min maxC (length buffer));
          preference = (case breakPreference c of Some b \<Rightarrow> b | None \<Rightarrow> by_paragraph);
          paragraphIdx = lastIndexOf window [10, 10];
          newlineIdx = lastIndexOf window [10]
      in if preference = by_paragraph \<and> paragraphIdx \<ge> int minC then paragraphIdx
         else if (preference = by_paragraph \<or> preference = by_newline) \<and> newlineIdx \<ge> int minC
         then newlineIdx
         else if preference \<noteq> by_newline \<and> findSentenceBreak window minC \<ge> int minC
         then findSentenceBreak window minC
         else if findWhitespaceBreak window minC \<ge> int minC
         then findWhitespaceBreak window minC
         else if length buffer \<ge> maxC then int maxC
         else - 1)"

definition pickBreakIndex :: "params \<Rightarrow> jstring \<Rightarrow> int" where
  "pickBreakIndex p buffer =
     (case blockReplyChunking p of
        None \<Rightarrow> - 1
      | Some c \<Rightarrow>
          if length buffer < minChars_of c then - 1
          else break_in_window c (minChars_of c) (maxChars_of c) buffer)"

text \<open>
  The payload given to a reply callback: \<open>{text: cleanedText, mediaUrls:
  mediaUrls?.length ? mediaUrls : undefined}\<close>, and the test \<open>mediaUrls && mediaUrls.length > 0\<close>.
\<close>

definition has_media :: "jstring list option \<Rightarrow> bool" where
  "has_media m = (case m of Some us \<Rightarrow> us \<noteq> [] | None \<Rightarrow> False)"

definition reply_payload :: "jstring \<Rightarrow> jstring list option \<Rightarrow> payload" where
  "reply_payload cleanedText m =
     \<lparr> ptext = cleanedText, mediaUrls = (if has_media m then m else None) \<rparr>"

text \<open>
  The three places that call \<open>params.onBlockReply\<close> share these lines: split the media
  from the text, drop the block when nothing is left, deliver the payload otherwise.
\<close>

definition onBlockReply :: "params \<Rightarrow> jstring \<Rightarrow> state \<Rightarrow> state" where
  "onBlockReply p chunk s =
     (case splitMediaFromOutput p chunk of
        (cleanedText, m) \<Rightarrow>
          (let s1 = s\<lparr> blockChunks := blockChunks s @ [chunk] \<rparr>
           in if cleanedText = [] \<and> \<not> has_media m then s1
              else s1\<lparr> blockReplies := blockReplies s1 @ [reply_payload cleanedText m] \<rparr>))"

definition emitBlockChunk :: "params \<Rightarrow> jstring \<Rightarrow> state \<Rightarrow> state" where
  "emitBlockChunk p txt s =
     (let chunk = trimEnd txt
      in if chunk = [] then s
         else if Some chunk = lastBlockReplyText s then s
         else
           (let s1 = s\<lparr> lastBlockReplyText := Some chunk,
                        assistantTexts := assistantTexts s @ [chunk] \<rparr>
            in if \<not> hasOnBlockReply p then s1 else onBlockReply p chunk s1))"

lemma length_trimStart_le: "length (trimStart s) \<le> length s"
  by (simp add: trimStart_def length_dropWhile_le)

lemma minChars_of_pos: "0 < minChars_of c"
  by (simp add: minChars_of_def)

lemma pickBreakIndex_pos_nonempty: "0 < pickBreakIndex p buf \<Longrightarrow> buf \<noteq> []"
  using minChars_of_pos by (auto simp: pickBreakIndex_def split: option.splits if_splits)

lemma drain_shortens:
  assumes "0 < pickBreakIndex p buf" and "nat (pickBreakIndex p buf) \<le> n"
  shows "length (trimStart (drop n buf)) < length buf"
proof -
  have "buf \<noteq> []" using assms(1) by (rule pickBreakIndex_pos_nonempty)
  moreover have "0 < n" using assms by linarith
  moreover have "length (trimStart (drop n buf)) \<le> length buf - n"
    using length_trimStart_le [of "drop n buf"] by simp
  ultimately show ?thesis by (cases buf) auto
qed

text \<open>\<open>nextStart\<close>: the break itself is skipped when it is white space.\<close>

definition next_start :: "jstring \<Rightarrow> nat \<Rightarrow> nat" where
  "next_start buf breakIdx =
     (if breakIdx < length buf \<and> is_ws (buf ! breakIdx) then breakIdx + 1 else breakIdx)"

text \<open>The \<open>while\<close> loop of \<open>drainBlockBuffer\<close>; each turn that goes on shortens the buffer.\<close>

function drain_loop :: "params \<Rightarrow> nat \<Rightarrow> nat \<Rightarrow> bool \<Rightarrow> state \<Rightarrow> state" where
  "drain_loop p minC maxC force s =
     (let buf = blockBuffer s
      in if length buf \<ge> minC \<or> (force \<and> length buf > 0) then
           (let breakIdx = pickBreakIndex p buf
            in if breakIdx \<le> 0 then
                 (if force then (emitBlockChunk p buf s)\<lparr> blockBuffer := [] \<rparr> else s)
               else
                 (let rawChunk = slice buf 0 (nat breakIdx)
                  in if length (trim rawChunk) = 0 then
                       drain_loop p minC maxC force
                         (s\<lparr> blockBuffer := trimStart (drop (nat breakIdx) buf) \<rparr>)
                     else
                       (let nextStart = next_start buf (nat breakIdx);
                            rest = trimStart (drop nextStart buf)
                        in if length rest < minC \<and> \<not> force then
                             (emitBlockChunk p rawChunk s)\<lparr> blockBuffer := rest \<rparr>
                           else if length rest < maxC \<and> \<not> force then
                             (emitBlockChunk p rawChunk s)\<lparr> blockBuffer := rest \<rparr>
                           else
                             drain_loop p minC maxC force
                               ((emitBlockChunk p rawChunk s)\<lparr> blockBuffer := rest \<rparr>))))
         else s)"
  by pat_completeness auto

termination
proof (relation "measure (\<lambda>(p, minC, maxC, force, s). length (blockBuffer s))")
  show "wf (measure (\<lambda>(p, minC, maxC, force, s). length (blockBuffer s)))" by simp
next
  fix p :: params and minC maxC :: nat and force :: bool and s :: state and buf breakIdx rawChunk
  assume "buf = blockBuffer s" and "\<not> breakIdx \<le> 0" and "breakIdx = pickBreakIndex p buf"
  then show "((p, minC, maxC, force, s\<lparr>blockBuffer := trimStart (drop (nat breakIdx) buf)\<rparr>),
              (p, minC, maxC, force, s)) \<in> measure (\<lambda>(p, minC, maxC, force, s). length (blockBuffer s))"
    using drain_shortens [of p buf "nat breakIdx"] by simp
next
  fix p :: params and minC maxC :: nat and force :: bool and s :: state
    and buf breakIdx rawChunk nextStart rest
  assume "buf = blockBuffer s" and "\<not> breakIdx \<le> 0" and "breakIdx = pickBreakIndex p buf"
    and "nextStart = next_start buf (nat breakIdx)"
    and "rest = trimStart (drop nextStart buf)"
  then show "((p, minC, maxC, force, (emitBlockChunk p rawChunk s)\<lparr>blockBuffer := rest\<rparr>),
              (p, minC, maxC, force, s)) \<in> measure (\<lambda>(p, minC, maxC, force, s). length (blockBuffer s))"
    using drain_shortens [of p buf nextStart] by (simp add: next_start_def split: if_splits)
qed

declare drain_loop.simps [simp del]

text \<open>One turn of the loop, case by case, and the induction over its turns.\<close>

lemma drain_loop_stop:
  "\<not> (minC \<le> length (blockBuffer s) \<or> force \<and> 0 < length (blockBuffer s)) \<Longrightarrow>
   drain_loop p minC maxC force s = s"
  by (subst drain_loop.simps) (auto simp: Let_def)

lemma drain_loop_no_break:
  "minC \<le> length (blockBuffer s) \<or> force \<and> 0 < length (blockBuffer s) \<Longrightarrow>
   pickBreakIndex p (blockBuffer s) \<le> 0 \<Longrightarrow>
   drain_loop p minC maxC force s =
     (if force then (emitBlockChunk p (blockBuffer s) s)\<lparr>blockBuffer := []\<rparr> else s)"
  by (subst drain_loop.simps) (auto simp: Let_def)

lemma drain_loop_blank:
  "minC \<le> length (blockBuffer s) \<or> force \<and> 0 < length (blockBuffer s) \<Longrightarrow>
   0 < pickBreakIndex p (blockBuffer s) \<Longrightarrow>
   trim (slice (blockBuffer s) 0 (nat (pickBreakIndex p (blockBuffer s)))) = [] \<Longrightarrow>
   drain_loop p minC maxC force s =
     drain_loop p minC maxC force
       (s\<lparr>blockBuffer := trimStart (drop (nat (pickBreakIndex p (blockBuffer s))) (blockBuffer s))\<rparr>)"
  by (subst drain_loop.simps) (auto simp: Let_def)

lemma drain_loop_emit:
  "minC \<le> length (blockBuffer s) \<or> force \<and> 0 < length (blockBuffer s) \<Longrightarrow>
   0 < pickBreakIndex p (blockBuffer s) \<Longrightarrow>
   trim (slice (blockBuffer s) 0 (nat (pickBreakIndex p (blockBuffer s)))) \<noteq> [] \<Longrightarrow>
   s' = (emitBlockChunk p (slice (blockBuffer s) 0 (nat (pickBreakIndex p (blockBuffer s)))) s)
          \<lparr>blockBuffer := trimStart (drop (next_start (blockBuffer s) (nat (pickBreakIndex p (blockBuffer s))))
                                       (blockBuffer s))\<rparr> \<Longrightarrow>
   drain_loop p minC maxC force s =
     (if (length (blockBuffer s') < minC \<or> length (blockBuffer s') < maxC) \<and> \<not> force then s'
      else drain_loop p minC maxC force s')"
  by (subst drain_loop.simps) (auto simp: Let_def)

lemma drain_loop_rule:
  assumes upd: "\<And>s b. P s \<Longrightarrow> P (s\<lparr>blockBuffer := b\<rparr>)"
    and flush: "\<And>s. P s \<Longrightarrow> force \<Longrightarrow> pickBreakIndex p (blockBuffer s) \<le> 0 \<Longrightarrow>
                  P (emitBlockChunk p (blockBuffer s) s)"
    and pick: "\<And>s. P s \<Longrightarrow> 0 < pickBreakIndex p (blockBuffer s) \<Longrightarrow>
                  P (emitBlockChunk p (slice (blockBuffer s) 0 (nat (pickBreakIndex p (blockBuffer s)))) s)"
    and init: "P s"
  shows "P (drain_loop p minC maxC force s)"
  using assms
proof (induction p minC maxC force s rule: drain_loop.induct)
  case (1 p minC maxC force s)
  define buf where "buf = blockBuffer s"
  define k where "k = pickBreakIndex p buf"
  define raw where "raw = slice buf 0 (nat k)"
  define s' where "s' = (emitBlockChunk p raw s)\<lparr>blockBuffer := trimStart (drop (next_start buf (nat k)) buf)\<rparr>"
  note defs = buf_def k_def raw_def
  show ?case
  proof (cases "minC \<le> length buf \<or> force \<and> 0 < length buf")
    case False
    then show ?thesis using "1.prems"(4) by (simp add: drain_loop_stop defs)
  next
    case go: True
    show ?thesis
    proof (cases "k \<le> 0")
      case True
      have "P (emitBlockChunk p buf s\<lparr>blockBuffer := []\<rparr>)" if force
        using "1.prems"(1) "1.prems"(2) [OF "1.prems"(4) that] True by (simp add: defs)
      then show ?thesis using go True "1.prems"(4)
        by (simp add: drain_loop_no_break defs)
    next
      case pos: False
      show ?thesis
      proof (cases "trim raw = []")
        case True
        have "P (drain_loop p minC maxC force (s\<lparr>blockBuffer := trimStart (drop (nat k) buf)\<rparr>))"
          using go pos True "1.prems"
          by (intro "1.IH"(1) [OF buf_def _ k_def _ raw_def]) auto
        moreover have "drain_loop p minC maxC force s =
            drain_loop p minC maxC force (s\<lparr>blockBuffer := trimStart (drop (nat k) buf)\<rparr>)"
          using go pos True unfolding defs by (intro drain_loop_blank) auto
        ultimately show ?thesis by simp
      next
        case False
        have emitted: "P s'"
          using "1.prems"(1) "1.prems"(3) [OF "1.prems"(4)] pos by (simp add: defs s'_def)
        have eq: "drain_loop p minC maxC force s =
            (if (length (blockBuffer s') < minC \<or> length (blockBuffer s') < maxC) \<and> \<not> force then s'
             else drain_loop p minC maxC force s')"
          using go pos False unfolding defs s'_def by (intro drain_loop_emit) auto
        show ?thesis
        proof (cases "(length (blockBuffer s') < minC \<or> length (blockBuffer s') < maxC) \<and> \<not> force")
          case True
          then show ?thesis using eq emitted by simp
        next
          case more: False
          have "P (drain_loop p minC maxC force s')"
            unfolding s'_def
            using go pos False more emitted "1.prems"(1,2,3)
            by (intro "1.IH"(2) [OF buf_def _ k_def _ raw_def _ refl refl])
               (auto simp: s'_def)
          then show ?thesis using eq more by simp
        qed
      qed
    qed
  qed
qed

definition drainBlockBuffer :: "params \<Rightarrow> bool \<Rightarrow> state \<Rightarrow> state" where
  "drainBlockBuffer p force s =
     (case blockReplyChunking p of
        None \<Rightarrow> s
      | Some c \<Rightarrow>
          (let minC = minChars_of c; maxC = maxChars_of c
           in if force \<and> length (blockBuffer s) > 0 \<and> length (blockBuffer s) \<le> maxC then
                (emitBlockChunk p (blockBuffer s) s)\<lparr> blockBuffer := [] \<rparr>
              else if length (blockBuffer s) < minC \<and> \<not> force then s
              else drain_loop p minC maxC force s))"

definition resetForCompactionRetry :: "state \<Rightarrow> state" where
  "resetForCompactionRetry s =
     s\<lparr> assistantTexts := [], toolMetas := [], toolMetaById := [], deltaBuffer := [],
        blockBuffer := [], lastStreamedAssistant := None, lastBlockReplyText := None,
        assistantTextBaseline := 0 \<rparr>"

section \<open>The event handler\<close>

datatype event =
    tool_execution_start jstring jstring json
  | tool_execution_update jstring jstring json
  | tool_execution_end jstring jstring bool json
  | message_update AgentMessage assistantMessageEvent
  | message_end AgentMessage
  | agent_start
  | auto_compaction_start
  | auto_compaction_end bool
  | agent_end
  | other_event

text \<open>The text that a \<open>message_update\<close> adds to the buffers.\<close>

definition update_chunk :: "assistantMessageEvent \<Rightarrow> jstring \<Rightarrow> jstring" where
  "update_chunk ame deltaBuf =
     (if evtType ame = js ''text_delta'' then delta ame
      else if delta ame \<noteq> [] then delta ame
      else if evtContent ame \<noteq> [] then
        (if startsWith (evtContent ame) deltaBuf then drop (length deltaBuf) (evtContent ame)
         else if startsWith deltaBuf (evtContent ame) then []
         else if \<not> includes_str deltaBuf (evtContent ame) then evtContent ame
         else [])
      else [])"

text \<open>\<open>cleaned\<close> and \<open>next\<close> of the \<open>message_update\<close> branch.\<close>

definition cleaned_of :: "params \<Rightarrow> jstring \<Rightarrow> jstring" where
  "cleaned_of p raw =
     (if enforceFinalTag p then stripThinkingSegments (stripUnpairedThinkingTags raw)
      else stripThinkingSegments raw)"

definition next_of :: "params \<Rightarrow> jstring \<Rightarrow> jstring" where
  "next_of p cleaned =
     (if enforceFinalTag p then
        (case extractFinalText cleaned of Some t \<Rightarrow> trim t | None \<Rightarrow> trim cleaned)
      else trim cleaned)"

text \<open>The streaming of \<open>next\<close> to the assistant stream and to \<open>onPartialReply\<close>.\<close>

definition stream_partial :: "params \<Rightarrow> jstring \<Rightarrow> state \<Rightarrow> state" where
  "stream_partial p nxt s =
     (if nxt \<noteq> [] \<and> Some nxt \<noteq> lastStreamedAssistant s then
        (case splitMediaFromOutput p nxt of
           (cleanedText, m) \<Rightarrow>
             s\<lparr> lastStreamedAssistant := Some nxt,
                agentEvents := agentEvents s @ [assistant_text (reply_payload cleanedText m)],
                partialReplies := partialReplies s @
                  (if hasOnPartialReply p then [reply_payload cleanedText m] else []) \<rparr>)
      else s)"

text \<open>The block flush at \<open>text_end\<close>.\<close>

definition text_end_flush :: "params \<Rightarrow> jstring \<Rightarrow> state \<Rightarrow> state" where
  "text_end_flush p nxt s =
     (let s1 =
        (if blockReplyChunking p \<noteq> None \<and> length (blockBuffer s) > 0 then
           drainBlockBuffer p True s
         else if nxt \<noteq> [] \<and> Some nxt \<noteq> lastBlockReplyText s then
           (let s2 = s\<lparr> lastBlockReplyText := Some nxt,
                        assistantTexts := assistantTexts s @ [nxt] \<rparr>
            in if hasOnBlockReply p then onBlockReply p nxt s2 else s2)
         else s)
      in s1\<lparr> deltaBuffer := [], blockBuffer := [], lastStreamedAssistant := None \<rparr>)"

text \<open>The handler of \<open>message_update\<close>, in the order of the source.\<close>

definition buffer_chunk :: "jstring \<Rightarrow> state \<Rightarrow> state" where
  "buffer_chunk chunk s =
     (if chunk \<noteq> [] then
        s\<lparr> deltaBuffer := deltaBuffer s @ chunk, blockBuffer := blockBuffer s @ chunk \<rparr>
      else s)"

definition drain_stream :: "params \<Rightarrow> state \<Rightarrow> state" where
  "drain_stream p s =
     (if hasOnBlockReply p \<and> blockReplyChunking p \<noteq> None then drainBlockBuffer p False s
      else s)"

definition on_text_event :: "params \<Rightarrow> assistantMessageEvent \<Rightarrow> state \<Rightarrow> state" where
  "on_text_event p ame s =
     (let s1 = buffer_chunk (update_chunk ame (deltaBuffer s)) s;
          nxt = next_of p (cleaned_of p (deltaBuffer s1));
          s3 = drain_stream p (stream_partial p nxt s1)
      in if evtType ame = js ''text_end'' \<and> blockReplyBreak p = at_text_end then
           text_end_flush p nxt s3
         else s3)"

definition on_message_update :: "params \<Rightarrow> AgentMessage \<Rightarrow> assistantMessageEvent \<Rightarrow> state \<Rightarrow> state" where
  "on_message_update p msg ame s =
     (if role msg \<noteq> js ''assistant'' then s
      else if \<not> (evtType ame = js ''text_delta'' \<or> evtType ame = js ''text_start'' \<or>
                  evtType ame = js ''text_end'') then s
      else on_text_event p ame s)"

text \<open>\<open>text\<close> of the \<open>message_end\<close> branch.\<close>

definition final_text_of :: "params \<Rightarrow> jstring \<Rightarrow> jstring" where
  "final_text_of p cleaned =
     (if enforceFinalTag p \<and> cleaned \<noteq> [] then
        (case extractFinalText cleaned of Some t \<Rightarrow> trim t | None \<Rightarrow> cleaned)
      else cleaned)"

text \<open>The handler of \<open>message_end\<close>: the final text is recorded, then the blocks are flushed.\<close>

definition record_final_text :: "jstring \<Rightarrow> state \<Rightarrow> state" where
  "record_final_text ftext s =
     (let addedDuringMessage = (length (assistantTexts s) > assistantTextBaseline s);
          s1 = (if \<not> addedDuringMessage \<and> ftext \<noteq> [] then
                  s\<lparr> assistantTexts := assistantTexts s @ [ftext] \<rparr>
                else s)
      in s1\<lparr> assistantTextBaseline := length (assistantTexts s1) \<rparr>)"

definition message_end_flush :: "params \<Rightarrow> jstring \<Rightarrow> state \<Rightarrow> state" where
  "message_end_flush p ftext s =
     (if (blockReplyBreak p = at_message_end \<or> length (blockBuffer s) > 0) \<and>
         ftext \<noteq> [] \<and> hasOnBlockReply p then
        (if blockReplyChunking p \<noteq> None \<and> length (blockBuffer s) > 0 then
           drainBlockBuffer p True s
         else if Some ftext \<noteq> lastBlockReplyText s then
           onBlockReply p ftext (s\<lparr> lastBlockReplyText := Some ftext \<rparr>)
         else s)
      else s)"

definition on_message_end :: "params \<Rightarrow> AgentMessage \<Rightarrow> state \<Rightarrow> state" where
  "on_message_end p msg s =
     (if role msg \<noteq> js ''assistant'' then s
      else
        (let ftext = final_text_of p (cleaned_of p (extractAssistantText p msg));
             s3 = message_end_flush p ftext (record_final_text ftext s)
         in s3\<lparr> deltaBuffer := [], blockBuffer := [], lastStreamedAssistant := None,
                lastBlockReplyText := None \<rparr>))"

definition get_meta :: "(jstring \<times> jstring option) list \<Rightarrow> jstring \<Rightarrow> jstring option" where
  "get_meta m k = (case map_of m k of Some v \<Rightarrow> v | None \<Rightarrow> None)"

definition handle_event :: "params \<Rightarrow> event \<Rightarrow> state \<Rightarrow> state" where
  "handle_event p evt s =
     (case evt of
        tool_execution_start toolName toolCallId args \<Rightarrow>
          s\<lparr> toolMetaById :=
               AList.update toolCallId (inferToolMetaFromArgs p toolName args) (toolMetaById s),
             agentEvents := agentEvents s @ [tool_start toolName toolCallId args] \<rparr>
      | tool_execution_update toolName toolCallId partialResult \<Rightarrow>
          s\<lparr> agentEvents := agentEvents s @
               [tool_update toolName toolCallId (sanitizeToolResult partialResult)] \<rparr>
      | tool_execution_end toolName toolCallId isError result \<Rightarrow>
          (let meta = get_meta (toolMetaById s) toolCallId
           in s\<lparr> toolMetas := toolMetas s @ [(toolName, meta)],
                 agentEvents := agentEvents s @
                   [tool_result toolName toolCallId meta isError (sanitizeToolResult result)] \<rparr>)
      | message_update msg ame \<Rightarrow> on_message_update p msg ame s
      | message_end msg \<Rightarrow> on_message_end p msg s
      | agent_start \<Rightarrow> s
      | auto_compaction_start \<Rightarrow> ensureCompactionPromise (s\<lparr> compactionInFlight := True \<rparr>)
      | auto_compaction_end willRetry \<Rightarrow>
          (let s1 = s\<lparr> compactionInFlight := False \<rparr>
           in if willRetry then resetForCompactionRetry (noteCompactionRetry s1)
              else maybeResolveCompactionWait s1)
      | agent_end \<Rightarrow>
          (if pendingCompactionRetry s > 0 then resolveCompactionRetry s
           else maybeResolveCompactionWait s)
      | other_event \<Rightarrow> s)"

text \<open>
  \<open>waitForCompactionRetry\<close>. While a compaction or a retry is pending it returns the shared
  promise. Otherwise it returns a new promise and queues a microtask, \<open>wait_microtask\<close>,
  which looks at the counters again: it either resolves the new promise at once (logged in
  \<open>microtaskResolutions\<close> with the counters it saw) or chains it to the shared promise.
\<close>

datatype waiting = shared_promise nat | settled_promise | deferred_promise

definition waitForCompactionRetry :: "state \<Rightarrow> waiting \<times> state" where
  "waitForCompactionRetry s =
     (if compactionInFlight s \<or> pendingCompactionRetry s > 0 then
        (let s1 = ensureCompactionPromise s
         in case compactionRetryPromise s1 of
              Some q \<Rightarrow> (shared_promise q, s1)
            | None \<Rightarrow> (settled_promise, s1))
      else (deferred_promise, s))"

definition wait_microtask :: "state \<Rightarrow> state" where
  "wait_microtask s =
     (if compactionInFlight s \<or> pendingCompactionRetry s > 0 then ensureCompactionPromise s
      else s\<lparr> microtaskResolutions := microtaskResolutions s @
                [(pendingCompactionRetry s, compactionInFlight s)] \<rparr>)"

text \<open>What happens to a subscriber: the session emits an event, or a consumer waits.\<close>

datatype action = emits event | calls_wait | runs_microtask

definition perform :: "params \<Rightarrow> state \<Rightarrow> action \<Rightarrow> state" where
  "perform p s a =
     (case a of
        emits evt \<Rightarrow> handle_event p evt s
      | calls_wait \<Rightarrow> snd (waitForCompactionRetry s)
      | runs_microtask \<Rightarrow> wait_microtask s)"

definition run :: "params \<Rightarrow> state \<Rightarrow> action list \<Rightarrow> state" where
  "run p s as = foldl (perform p) s as"

definition subscribe :: "params \<Rightarrow> event list \<Rightarrow> state" where
  "subscribe p evts = run p initial (map emits evts)"

section \<open>Evaluating the model on concrete input\<close>

lemmas str_defs = js_def cu_def is_ws_def lower_def toLowerCase_def slice_def trimStart_def
  trimEnd_def trim_def startsWith_def lastIndexOf_def

lemmas re_defs = THINKING_TAG_RE_def THINKING_OPEN_RE_def THINKING_CLOSE_RE_def
  FINAL_START_RE_def FINAL_END_RE_def SENTENCE_RE_def matched_def skip_ws_def opt_chr_def
  opt_lit_ci_def re_exec_def re_test_def replace_first_def

lemmas strip_defs = strip_step_def stripThinkingSegments_def stripUnpairedThinkingTags_def
  sanitizeFinalText_def extractFinalText_def

section \<open>Idempotence of stripThinkingSegments\<close>

text \<open>
  Claim C9, as amended. \<open>stripThinkingSegments\<close> leaves a text without a thinking tag as it
  is, so stripping twice is the same as stripping once whenever the first result holds no
  match of \<open>THINKING_TAG_RE\<close>.
\<close>

theorem stripThinkingSegments_idempotent_if_clean:
  assumes "\<not> re_test THINKING_TAG_RE (stripThinkingSegments s)"
  shows "stripThinkingSegments (stripThinkingSegments s) = stripThinkingSegments s"
proof -
  define t where "t = stripThinkingSegments s"
  from assms have "\<not> re_test THINKING_TAG_RE t" by (simp add: t_def)
  then have "stripThinkingSegments t = t" by (simp add: stripThinkingSegments_def)
  then show ?thesis by (simp add: t_def)
qed

lemma strip_paired_example:
  "stripThinkingSegments (js ''a<think>b</think>c'') = js ''ac''"
  by (simp add: str_defs re_defs strip_defs)

lemma clean_example: "\<not> re_test THINKING_TAG_RE (js ''ac'')"
  by (simp add: str_defs re_defs)

theorem stripThinkingSegments_idempotent_if_clean_witness:
  "\<not> re_test THINKING_TAG_RE (stripThinkingSegments (js ''a<think>b</think>c'')) \<and>
   stripThinkingSegments (stripThinkingSegments (js ''a<think>b</think>c'')) = js ''ac''"
  using stripThinkingSegments_idempotent_if_clean [of "js ''a<think>b</think>c''"]
  by (simp add: strip_paired_example clean_example)

text \<open>
  The claim as stated fails: the text before an opening tag and the text after the closing
  tag are joined, and the two can form a tag. \<open><thi<think>x</think>nk>\<close> is stripped to
  \<open><think>\<close>, which a second pass strips to the empty string.
\<close>

lemma strip_rejoined_example:
  "stripThinkingSegments (js ''<thi<think>x</think>nk>'') = js ''<think>''"
  by (simp add: str_defs re_defs strip_defs)

lemma strip_open_example: "stripThinkingSegments (js ''<think>'') = []"
  by (simp add: str_defs re_defs strip_defs)

theorem stripThinkingSegments_not_idempotent:
  "stripThinkingSegments (stripThinkingSegments (js ''<thi<think>x</think>nk>'')) \<noteq>
   stripThinkingSegments (js ''<thi<think>x</think>nk>'')"
  by (simp add: strip_rejoined_example strip_open_example) (simp add: js_def)

section \<open>Sanitised tool results\<close>

lemma key_distinct:
  "js ''data'' \<noteq> js ''bytes''" "js ''data'' \<noteq> js ''omitted''" "js ''bytes'' \<noteq> js ''omitted''"
  "js ''image'' \<noteq> js ''text''"
  by (simp_all add: js_def cu_def)

lemma sanitize_item_text:
  assumes "map_of entry (js ''type'') = Some (JStr (js ''text''))"
    and "map_of entry (js ''text'') = Some (JStr t)"
  shows "sanitize_item (JObj entry) =
         JObj (AList.update (js ''text'') (JStr (truncateToolText t)) entry)"
  using assms by (simp add: sanitize_item_def)

lemma sanitize_item_short_text:
  assumes "map_of entry (js ''type'') = Some (JStr (js ''text''))"
    and "map_of entry (js ''text'') = Some (JStr t)" and "length t \<le> 8000"
  shows "sanitize_item (JObj entry) = JObj entry"
  using assms
  by (simp add: sanitize_item_text truncateToolText_def TOOL_RESULT_MAX_CHARS_def update_triv)

lemma sanitize_item_long_text:
  assumes "map_of entry (js ''type'') = Some (JStr (js ''text''))"
    and "map_of entry (js ''text'') = Some (JStr t)" and "8000 < length t"
  shows "sanitize_item (JObj entry) =
         JObj (AList.update (js ''text'') (JStr (take 8000 t @ truncated_suffix)) entry)"
  using assms
  by (simp add: sanitize_item_text truncateToolText_def TOOL_RESULT_MAX_CHARS_def slice_def)

text \<open>What \<open>bytes\<close> is set to: the length of a non-empty string, \<open>undefined\<close> otherwise.\<close>

definition bytes_of :: "json option \<Rightarrow> json" where
  "bytes_of data =
     (case data of
        Some (JStr d) \<Rightarrow> if d = [] then JUndefined else JNum (int (length d))
      | _ \<Rightarrow> JUndefined)"

lemma sanitize_item_image:
  assumes "map_of entry (js ''type'') = Some (JStr (js ''image''))"
  shows "\<exists>e. sanitize_item (JObj entry) = JObj e \<and>
             map_of e (js ''data'') = None \<and>
             map_of e (js ''omitted'') = Some (JBool True) \<and>
             map_of e (js ''bytes'') = Some (bytes_of (map_of entry (js ''data''))) \<and>
             (\<forall>k. k \<noteq> js ''data'' \<and> k \<noteq> js ''bytes'' \<and> k \<noteq> js ''omitted'' \<longrightarrow>
                  map_of e k = map_of entry k)"
proof -
  let ?e = "AList.update (js ''omitted'') (JBool True)
              (AList.update (js ''bytes'') (bytes_of (map_of entry (js ''data'')))
                (AList.delete (js ''data'') entry))"
  have "sanitize_item (JObj entry) = JObj ?e"
    using assms key_distinct(4)
    by (auto simp: sanitize_item_def bytes_of_def Let_def
             split: option.splits json.splits bool.splits)
  moreover have "map_of ?e (js ''data'') = None"
    using key_distinct by (simp add: update_conv' delete_conv')
  moreover have "map_of ?e (js ''omitted'') = Some (JBool True)"
    by (simp add: update_conv')
  moreover have "map_of ?e (js ''bytes'') = Some (bytes_of (map_of entry (js ''data'')))"
    using key_distinct by (simp add: update_conv')
  moreover have "\<forall>k. k \<noteq> js ''data'' \<and> k \<noteq> js ''bytes'' \<and> k \<noteq> js ''omitted'' \<longrightarrow>
                  map_of ?e k = map_of entry k"
    by (simp add: update_conv' delete_conv')
  ultimately show ?thesis by blast
qed

lemma sanitizeToolResult_content:
  assumes "map_of rec (js ''content'') = Some (JArr items)"
  shows "sanitizeToolResult (JObj rec) =
         JObj (AList.update (js ''content'') (JArr (map sanitize_item items)) rec)"
  using assms by (simp add: sanitizeToolResult_def)

text \<open>
  Claim C7, as amended. A tool result that is an object with a \<open>content\<close> array is emitted
  (by \<open>tool_execution_end\<close> and \<open>tool_execution_update\<close>) with each item of the array
  sanitised in place and everything else unchanged: a text item of at most 8000 code units
  is unchanged; a longer one keeps its first 8000 code units, followed by a line feed and
  \<open>...(truncated)...\<close>; an image item loses its \<open>data\<close> field, gets \<open>omitted: true\<close>, and gets
  as \<open>bytes\<close> the length of \<open>data\<close> when that is a non-empty string and \<open>undefined\<close>
  otherwise, its other fields unchanged.
\<close>

theorem emitted_tool_results_sanitized:
  assumes "map_of rec (js ''content'') = Some (JArr items)"
  shows "\<exists>out.
     agentEvents (handle_event p (tool_execution_end toolName toolCallId isError (JObj rec)) s) =
       agentEvents s @ [tool_result toolName toolCallId (get_meta (toolMetaById s) toolCallId) isError
                          (JObj (AList.update (js ''content'') (JArr out) rec))] \<and>
     agentEvents (handle_event p (tool_execution_update toolName toolCallId (JObj rec)) s) =
       agentEvents s @ [tool_update toolName toolCallId
                          (JObj (AList.update (js ''content'') (JArr out) rec))] \<and>
     length out = length items \<and>
     (\<forall>i < length items. \<forall>entry. items ! i = JObj entry \<longrightarrow>
        (\<forall>t. map_of entry (js ''type'') = Some (JStr (js ''text'')) \<and>
             map_of entry (js ''text'') = Some (JStr t) \<longrightarrow>
             (length t \<le> 8000 \<longrightarrow> out ! i = items ! i) \<and>
             (8000 < length t \<longrightarrow>
                out ! i = JObj (AList.update (js ''text'')
                                 (JStr (take 8000 t @ [10, 8230] @ js ''(truncated)'' @ [8230])) entry))) \<and>
        (map_of entry (js ''type'') = Some (JStr (js ''image'')) \<longrightarrow>
           (\<exists>e. out ! i = JObj e \<and>
                map_of e (js ''data'') = None \<and>
                map_of e (js ''omitted'') = Some (JBool True) \<and>
                map_of e (js ''bytes'') =
                  Some (case map_of entry (js ''data'') of
                          Some (JStr d) \<Rightarrow> if d = [] then JUndefined else JNum (int (length d))
                        | _ \<Rightarrow> JUndefined) \<and>
                (\<forall>k. k \<noteq> js ''data'' \<and> k \<noteq> js ''bytes'' \<and> k \<noteq> js ''omitted'' \<longrightarrow>
                     map_of e k = map_of entry k))))"
proof (intro exI [of _ "map sanitize_item items"] conjI allI impI)
  show "agentEvents (handle_event p (tool_execution_end toolName toolCallId isError (JObj rec)) s) =
        agentEvents s @ [tool_result toolName toolCallId (get_meta (toolMetaById s) toolCallId) isError
          (JObj (AList.update (js ''content'') (JArr (map sanitize_item items)) rec))]"
    by (simp add: handle_event_def Let_def sanitizeToolResult_content [OF assms])
  show "agentEvents (handle_event p (tool_execution_update toolName toolCallId (JObj rec)) s) =
        agentEvents s @ [tool_update toolName toolCallId
          (JObj (AList.update (js ''content'') (JArr (map sanitize_item items)) rec))]"
    by (simp add: handle_event_def sanitizeToolResult_content [OF assms])
  show "length (map sanitize_item items) = length items" by simp
next
  fix i entry t
  assume i: "i < length items" and e: "items ! i = JObj entry"
    and t: "map_of entry (js ''type'') = Some (JStr (js ''text'')) \<and>
            map_of entry (js ''text'') = Some (JStr t)"
  { assume "length t \<le> 8000"
    then show "map sanitize_item items ! i = items ! i"
      using i e t by (simp add: sanitize_item_short_text) }
  { assume "8000 < length t"
    then show "map sanitize_item items ! i =
        JObj (AList.update (js ''text'')
               (JStr (take 8000 t @ [10, 8230] @ js ''(truncated)'' @ [8230])) entry)"
      using i e t sanitize_item_long_text [of entry t]
      by (simp add: truncated_suffix_def) }
next
  fix i entry
  assume i: "i < length items" and e: "items ! i = JObj entry"
    and img: "map_of entry (js ''type'') = Some (JStr (js ''image''))"
  from sanitize_item_image [OF img] i e
  show "\<exists>e. map sanitize_item items ! i = JObj e \<and>
            map_of e (js ''data'') = None \<and>
            map_of e (js ''omitted'') = Some (JBool True) \<and>
            map_of e (js ''bytes'') =
              Some (case map_of entry (js ''data'') of
                      Some (JStr d) \<Rightarrow> if d = [] then JUndefined else JNum (int (length d))
                    | _ \<Rightarrow> JUndefined) \<and>
            (\<forall>k. k \<noteq> js ''data'' \<and> k \<noteq> js ''bytes'' \<and> k \<noteq> js ''omitted'' \<longrightarrow>
                 map_of e k = map_of entry k)"
    by (simp add: bytes_of_def)
qed

subsection \<open>Parameters for concrete runs\<close>

text \<open>
  Modelled from the spec: \<open>splitMediaFromOutput\<close> of \<open>src/media/parse.ts\<close>, which is not among
  the sources at hand, on a text that holds no media pseudo-URL. The spec: each chunk is
  scanned for media pseudo-URLs, which are stripped from the text and returned in a
  parallel list. With none to strip the text is returned and the list is absent.
\<close>

definition no_media :: "jstring \<Rightarrow> jstring \<times> jstring list option" where
  "no_media t = (t, None)"

text \<open>An assistant message whose content is one string, and the text taken from it.\<close>

definition assistant :: "string \<Rightarrow> AgentMessage" where
  "assistant t = \<lparr> role = js ''assistant'', content = JStr (js t) \<rparr>"

definition content_text :: "AgentMessage \<Rightarrow> jstring" where
  "content_text m = (case content m of JStr t \<Rightarrow> t | _ \<Rightarrow> [])"

text \<open>
  Both reply callbacks given, no chunking, \<open>blockReplyBreak\<close> and \<open>enforceFinalTag\<close> left
  out; the examples below change single fields.
\<close>

definition plain :: params where
  "plain = \<lparr> hasOnBlockReply = True, hasOnPartialReply = True, blockReplyBreakParam = None,
     blockReplyChunking = None, enforceFinalTag = False, splitMediaFromOutput = no_media,
     extractAssistantText = content_text, inferToolMetaFromArgs = (\<lambda>toolName args. None) \<rparr>"

definition text_delta :: "string \<Rightarrow> event" where
  "text_delta d = message_update (assistant [])
     \<lparr> evtType = js ''text_delta'', delta = js d, evtContent = [] \<rparr>"

definition text_end :: "string \<Rightarrow> event" where
  "text_end d = message_update (assistant [])
     \<lparr> evtType = js ''text_end'', delta = js d, evtContent = [] \<rparr>"

lemmas example_defs = no_media_def assistant_def content_text_def plain_def text_delta_def
  text_end_def

subsection \<open>A sanitised result\<close>

definition example_items :: "json list" where
  "example_items =
     [JObj [(js ''type'', JStr (js ''text'')), (js ''text'', JStr (js ''ok''))],
      JObj [(js ''type'', JStr (js ''text'')), (js ''text'', JStr (replicate 8001 120))],
      JObj [(js ''type'', JStr (js ''image'')), (js ''data'', JStr (js ''QUJD'')),
            (js ''mimeType'', JStr (js ''image/png''))]]"

theorem emitted_tool_results_sanitized_witness:
  "map_of [(js ''content'', JArr example_items)] (js ''content'') = Some (JArr example_items) \<and>
   agentEvents (handle_event plain
      (tool_execution_end (js ''read'') (js ''call1'') False
         (JObj [(js ''content'', JArr example_items)])) initial) =
     [tool_result (js ''read'') (js ''call1'') None False
        (JObj [(js ''content'', JArr
           [JObj [(js ''type'', JStr (js ''text'')), (js ''text'', JStr (js ''ok''))],
            JObj [(js ''type'', JStr (js ''text'')),
                  (js ''text'', JStr (replicate 8000 120 @ [10, 8230] @ js ''(truncated)'' @ [8230]))],
            JObj [(js ''type'', JStr (js ''image'')), (js ''mimeType'', JStr (js ''image/png'')),
                  (js ''bytes'', JNum 4), (js ''omitted'', JBool True)]])])]"
  using emitted_tool_results_sanitized
    [of "[(js ''content'', JArr example_items)]" example_items plain "js ''read''" "js ''call1''"
        False initial]
  by (simp add: handle_event_def sanitizeToolResult_def sanitize_item_def example_items_def
      truncateToolText_def TOOL_RESULT_MAX_CHARS_def truncated_suffix_def slice_def get_meta_def
      initial_def js_def cu_def)

text \<open>
  The claim as stated fails for an image whose \<open>data\<close> is the empty string: \<open>data ?
  data.length : undefined\<close> makes \<open>bytes\<close> undefined there, not the length 0.
\<close>

theorem empty_image_data_bytes_undefined:
  "sanitizeToolResult
     (JObj [(js ''content'', JArr [JObj [(js ''type'', JStr (js ''image'')), (js ''data'', JStr [])]])]) =
   JObj [(js ''content'', JArr [JObj [(js ''type'', JStr (js ''image'')), (js ''bytes'', JUndefined),
                                 (js ''omitted'', JBool True)]])]"
  by (simp add: sanitizeToolResult_def sanitize_item_def js_def cu_def)

section \<open>The compaction wait\<close>

text \<open>The variables of the compaction wait; the handlers of assistant text leave them alone.\<close>

definition compaction_part ::
  "state \<Rightarrow> bool \<times> nat \<times> nat option \<times> nat option \<times> nat \<times> resolution list \<times> (nat \<times> bool) list" where
  "compaction_part s =
     (compactionInFlight s, pendingCompactionRetry s, compactionRetryResolve s,
      compactionRetryPromise s, promiseCount s, resolutions s, microtaskResolutions s)"

lemma compaction_part_update [simp]:
  "compaction_part (s\<lparr>assistantTexts := a1\<rparr>) = compaction_part s"
  "compaction_part (s\<lparr>toolMetas := a2\<rparr>) = compaction_part s"
  "compaction_part (s\<lparr>toolMetaById := a3\<rparr>) = compaction_part s"
  "compaction_part (s\<lparr>deltaBuffer := a4\<rparr>) = compaction_part s"
  "compaction_part (s\<lparr>blockBuffer := a5\<rparr>) = compaction_part s"
  "compaction_part (s\<lparr>lastStreamedAssistant := a6\<rparr>) = compaction_part s"
  "compaction_part (s\<lparr>lastBlockReplyText := a7\<rparr>) = compaction_part s"
  "compaction_part (s\<lparr>assistantTextBaseline := a8\<rparr>) = compaction_part s"
  "compaction_part (s\<lparr>partialReplies := a9\<rparr>) = compaction_part s"
  "compaction_part (s\<lparr>blockReplies := b1\<rparr>) = compaction_part s"
  "compaction_part (s\<lparr>blockChunks := b2\<rparr>) = compaction_part s"
  "compaction_part (s\<lparr>agentEvents := b3\<rparr>) = compaction_part s"
  by (simp_all add: compaction_part_def)

lemma compaction_part_onBlockReply [simp]:
  "compaction_part (onBlockReply p chunk s) = compaction_part s"
  by (simp add: onBlockReply_def Let_def split: prod.splits)

lemma compaction_part_emitBlockChunk [simp]:
  "compaction_part (emitBlockChunk p txt s) = compaction_part s"
  by (simp add: emitBlockChunk_def Let_def)

lemma compaction_part_drain_loop [simp]:
  "compaction_part (drain_loop p minC maxC force s) = compaction_part s"
  by (rule drain_loop_rule [where P = "\<lambda>t. compaction_part t = compaction_part s"]) simp_all

lemma compaction_part_drainBlockBuffer [simp]:
  "compaction_part (drainBlockBuffer p force s) = compaction_part s"
  by (simp add: drainBlockBuffer_def Let_def split: option.splits)

lemma compaction_part_stream_partial [simp]:
  "compaction_part (stream_partial p nxt s) = compaction_part s"
  by (simp add: stream_partial_def split: prod.splits)

lemma compaction_part_text_end_flush [simp]:
  "compaction_part (text_end_flush p nxt s) = compaction_part s"
  by (simp add: text_end_flush_def Let_def)

lemma compaction_part_on_message_update [simp]:
  "compaction_part (on_message_update p msg ame s) = compaction_part s"
  by (simp add: on_message_update_def on_text_event_def buffer_chunk_def drain_stream_def Let_def)

lemma compaction_part_on_message_end [simp]:
  "compaction_part (on_message_end p msg s) = compaction_part s"
  by (simp add: on_message_end_def message_end_flush_def record_final_text_def Let_def)

lemma compaction_part_resetForCompactionRetry [simp]:
  "compaction_part (resetForCompactionRetry s) = compaction_part s"
  by (simp add: resetForCompactionRetry_def)




















lemmas handler_defs = update_chunk_def cleaned_of_def next_of_def stream_partial_def
  text_end_flush_def buffer_chunk_def drain_stream_def on_text_event_def on_message_update_def
  final_text_of_def record_final_text_def message_end_flush_def on_message_end_def
  handle_event_def perform_def run_def subscribe_def blockReplyBreak_def has_media_def
  reply_payload_def onBlockReply_def

lemmas compaction_defs = ensureCompactionPromise_def noteCompactionRetry_def call_resolve_def
  resolveCompactionRetry_def maybeResolveCompactionWait_def resetForCompactionRetry_def
  waitForCompactionRetry_def wait_microtask_def





section \<open>Reset for a compaction retry\<close>

text \<open>The variables that hold assistant text and tool metadata.\<close>

definition text_part ::
  "state \<Rightarrow> jstring list \<times> (jstring \<times> jstring option) list \<times> (jstring \<times> jstring option) list \<times>
     jstring \<times> jstring \<times> jstring option \<times> jstring option \<times> nat" where
  "text_part s =
     (assistantTexts s, toolMetas s, toolMetaById s, deltaBuffer s, blockBuffer s,
      lastStreamedAssistant s, lastBlockReplyText s, assistantTextBaseline s)"

text \<open>Two states that agree on them still agree after the same step.\<close>

definition same_text :: "state \<Rightarrow> state \<Rightarrow> bool" where
  "same_text t s \<longleftrightarrow> text_part t = text_part s"

lemma same_text_fields:
  assumes "same_text t s"
  shows "assistantTexts t = assistantTexts s" "toolMetas t = toolMetas s"
    "toolMetaById t = toolMetaById s" "deltaBuffer t = deltaBuffer s"
    "blockBuffer t = blockBuffer s" "lastStreamedAssistant t = lastStreamedAssistant s"
    "lastBlockReplyText t = lastBlockReplyText s"
    "assistantTextBaseline t = assistantTextBaseline s"
  using assms by (simp_all add: same_text_def text_part_def)

lemma same_text_onBlockReply:
  "same_text t s \<Longrightarrow> same_text (onBlockReply p chunk t) (onBlockReply p chunk s)"
  by (simp add: onBlockReply_def Let_def same_text_def text_part_def split: prod.splits)

lemma same_text_emitBlockChunk:
  assumes "same_text t s"
  shows "same_text (emitBlockChunk p txt t) (emitBlockChunk p txt s)"
proof -
  have "same_text (t\<lparr>lastBlockReplyText := a, assistantTexts := assistantTexts t @ b\<rparr>)
                  (s\<lparr>lastBlockReplyText := a, assistantTexts := assistantTexts s @ b\<rparr>)" for a b
    using assms by (simp add: same_text_def text_part_def)
  then show ?thesis
    using assms same_text_fields(7) [OF assms]
    by (simp add: emitBlockChunk_def Let_def same_text_onBlockReply)
qed

lemma same_text_blockBuffer:
  "same_text t s \<Longrightarrow> same_text (t\<lparr>blockBuffer := b\<rparr>) (s\<lparr>blockBuffer := b\<rparr>)"
  by (simp add: same_text_def text_part_def)

lemma same_text_drain_loop:
  "same_text t s \<Longrightarrow>
   same_text (drain_loop p minC maxC force t) (drain_loop p minC maxC force s)"
proof (induction p minC maxC force s arbitrary: t rule: drain_loop.induct)
  case (1 p minC maxC force s)
  define buf where "buf = blockBuffer s"
  define k where "k = pickBreakIndex p buf"
  define raw where "raw = slice buf 0 (nat k)"
  define rest where "rest = trimStart (drop (next_start buf (nat k)) buf)"
  have bt: "blockBuffer t = buf" using same_text_fields(5) [OF "1.prems"] by (simp add: buf_def)
  note defs = buf_def k_def raw_def
  show ?case
  proof (cases "minC \<le> length buf \<or> force \<and> 0 < length buf")
    case False
    then show ?thesis using "1.prems" bt by (simp add: drain_loop_stop defs)
  next
    case go: True
    show ?thesis
    proof (cases "k \<le> 0")
      case True
      then show ?thesis using go bt "1.prems"
        by (simp add: drain_loop_no_break defs same_text_emitBlockChunk same_text_blockBuffer)
    next
      case pos: False
      show ?thesis
      proof (cases "trim raw = []")
        case True
        have s: "drain_loop p minC maxC force s =
            drain_loop p minC maxC force (s\<lparr>blockBuffer := trimStart (drop (nat k) buf)\<rparr>)"
          using go pos True unfolding defs by (intro drain_loop_blank) auto
        have t: "drain_loop p minC maxC force t =
            drain_loop p minC maxC force (t\<lparr>blockBuffer := trimStart (drop (nat k) buf)\<rparr>)"
          using go pos True bt drain_loop_blank [of minC t force p] by (simp add: defs)
        show ?thesis unfolding s t
          using go pos True "1.prems"
          by (intro "1.IH"(1) [OF buf_def _ k_def _ raw_def] same_text_blockBuffer) auto
      next
        case False
        define s' where "s' = (emitBlockChunk p raw s)\<lparr>blockBuffer := rest\<rparr>"
        define t' where "t' = (emitBlockChunk p raw t)\<lparr>blockBuffer := rest\<rparr>"
        have st: "same_text t' s'"
          unfolding s'_def t'_def
          by (intro same_text_blockBuffer same_text_emitBlockChunk "1.prems")
        have bb: "blockBuffer s' = rest" "blockBuffer t' = rest" by (simp_all add: s'_def t'_def)
        have s: "drain_loop p minC maxC force s =
            (if (length rest < minC \<or> length rest < maxC) \<and> \<not> force then s'
             else drain_loop p minC maxC force s')"
          using go pos False drain_loop_emit [of minC s force p s' maxC]
          by (simp add: defs s'_def rest_def)
        have t: "drain_loop p minC maxC force t =
            (if (length rest < minC \<or> length rest < maxC) \<and> \<not> force then t'
             else drain_loop p minC maxC force t')"
          using go pos False bt drain_loop_emit [of minC t force p t' maxC]
          by (simp add: defs t'_def rest_def)
        show ?thesis
        proof (cases "(length rest < minC \<or> length rest < maxC) \<and> \<not> force")
          case True
          then show ?thesis using s t st by simp
        next
          case more: False
          have "same_text (drain_loop p minC maxC force t') (drain_loop p minC maxC force s')"
            unfolding s'_def rest_def
            using go pos False more st
            by (intro "1.IH"(2) [OF buf_def _ k_def _ raw_def _ refl refl])
               (auto simp: s'_def rest_def)
          then show ?thesis using s t more by simp
        qed
      qed
    qed
  qed
qed


lemma same_text_refl [simp]: "same_text s s"
  by (simp add: same_text_def)

lemma same_text_drainBlockBuffer:
  assumes "same_text t s"
  shows "same_text (drainBlockBuffer p force t) (drainBlockBuffer p force s)"
  using assms same_text_fields(5) [OF assms]
  by (simp add: drainBlockBuffer_def Let_def same_text_drain_loop same_text_emitBlockChunk
      same_text_blockBuffer split: option.splits)

lemma same_text_stream_partial:
  assumes "same_text t s"
  shows "same_text (stream_partial p nxt t) (stream_partial p nxt s)"
  using assms same_text_fields(6) [OF assms]
  by (simp add: stream_partial_def same_text_def text_part_def split: prod.splits)

lemma same_text_text_end_flush:
  assumes "same_text t s"
  shows "same_text (text_end_flush p nxt t) (text_end_flush p nxt s)"
proof -
  have clear: "same_text (a\<lparr>deltaBuffer := [], blockBuffer := [], lastStreamedAssistant := None\<rparr>)
                         (b\<lparr>deltaBuffer := [], blockBuffer := [], lastStreamedAssistant := None\<rparr>)"
    if "same_text a b" for a b
    using that by (simp add: same_text_def text_part_def)
  have push: "same_text (t\<lparr>lastBlockReplyText := Some nxt, assistantTexts := assistantTexts t @ [nxt]\<rparr>)
                        (s\<lparr>lastBlockReplyText := Some nxt, assistantTexts := assistantTexts s @ [nxt]\<rparr>)"
    using assms by (simp add: same_text_def text_part_def)
  show ?thesis
    using assms same_text_fields(5,7) [OF assms] push
    by (simp add: text_end_flush_def Let_def clear same_text_drainBlockBuffer same_text_onBlockReply)
qed

lemma same_text_buffer_chunk:
  "same_text t s \<Longrightarrow> same_text (buffer_chunk chunk t) (buffer_chunk chunk s)"
  by (simp add: buffer_chunk_def same_text_def text_part_def)

lemma same_text_drain_stream:
  "same_text t s \<Longrightarrow> same_text (drain_stream p t) (drain_stream p s)"
  by (auto simp: drain_stream_def same_text_drainBlockBuffer)

lemma same_text_on_text_event:
  assumes "same_text t s"
  shows "same_text (on_text_event p ame t) (on_text_event p ame s)"
proof -
  have d: "deltaBuffer t = deltaBuffer s" by (rule same_text_fields(4) [OF assms])
  have 1: "same_text (buffer_chunk c t) (buffer_chunk c s)" for c
    by (rule same_text_buffer_chunk [OF assms])
  have d1: "deltaBuffer (buffer_chunk c t) = deltaBuffer (buffer_chunk c s)" for c
    by (rule same_text_fields(4) [OF 1])
  show ?thesis
    unfolding on_text_event_def Let_def d d1
    by (simp add: same_text_text_end_flush same_text_drain_stream same_text_stream_partial 1)
qed

lemma same_text_on_message_update:
  "same_text t s \<Longrightarrow> same_text (on_message_update p msg ame t) (on_message_update p msg ame s)"
  by (simp add: on_message_update_def same_text_on_text_event)

lemma same_text_record_final_text:
  "same_text t s \<Longrightarrow> same_text (record_final_text ftext t) (record_final_text ftext s)"
  by (simp add: record_final_text_def Let_def same_text_def text_part_def)

lemma same_text_message_end_flush:
  assumes "same_text t s"
  shows "same_text (message_end_flush p ftext t) (message_end_flush p ftext s)"
proof -
  have set_last: "same_text (t\<lparr>lastBlockReplyText := a\<rparr>) (s\<lparr>lastBlockReplyText := a\<rparr>)" for a
    using assms by (simp add: same_text_def text_part_def)
  show ?thesis
    using assms same_text_fields(5,7) [OF assms]
    by (simp add: message_end_flush_def same_text_drainBlockBuffer same_text_onBlockReply set_last)
qed

lemma same_text_on_message_end:
  assumes "same_text t s"
  shows "same_text (on_message_end p msg t) (on_message_end p msg s)"
proof -
  have clear: "same_text (a\<lparr>deltaBuffer := [], blockBuffer := [], lastStreamedAssistant := None,
                             lastBlockReplyText := None\<rparr>)
                         (b\<lparr>deltaBuffer := [], blockBuffer := [], lastStreamedAssistant := None,
                             lastBlockReplyText := None\<rparr>)"
    if "same_text a b" for a b
    using that by (simp add: same_text_def text_part_def)
  show ?thesis
    using assms
    by (simp add: on_message_end_def Let_def clear same_text_message_end_flush
        same_text_record_final_text)
qed

lemma text_part_compaction [simp]:
  "text_part (ensureCompactionPromise s) = text_part s"
  "text_part (noteCompactionRetry s) = text_part s"
  "text_part (maybeResolveCompactionWait s) = text_part s"
  "text_part (resolveCompactionRetry s) = text_part s"
  "text_part (s\<lparr>compactionInFlight := f\<rparr>) = text_part s"
  by (simp_all add: text_part_def ensureCompactionPromise_def
      noteCompactionRetry_def maybeResolveCompactionWait_def resolveCompactionRetry_def
      call_resolve_def Let_def split: option.splits)

lemma text_part_reset: "text_part (resetForCompactionRetry s) = text_part initial"
  by (simp add: text_part_def resetForCompactionRetry_def initial_def)

lemma same_text_handle_event:
  assumes "same_text t s"
  shows "same_text (handle_event p evt t) (handle_event p evt s)"
proof (cases evt)
  case (tool_execution_start toolName toolCallId args)
  then show ?thesis using assms by (simp add: handle_event_def same_text_def text_part_def)
next
  case (tool_execution_update toolName toolCallId partialResult)
  then show ?thesis using assms by (simp add: handle_event_def same_text_def text_part_def)
next
  case (tool_execution_end toolName toolCallId isError result)
  then show ?thesis using assms by (simp add: handle_event_def same_text_def text_part_def Let_def)
next
  case (message_update msg ame)
  then show ?thesis using assms by (simp add: handle_event_def same_text_on_message_update)
next
  case (message_end msg)
  then show ?thesis using assms by (simp add: handle_event_def same_text_on_message_end)
next
  case agent_start
  then show ?thesis using assms by (simp add: handle_event_def)
next
  case auto_compaction_start
  then show ?thesis using assms by (simp add: handle_event_def same_text_def)
next
  case (auto_compaction_end willRetry)
  then show ?thesis using assms
    by (cases willRetry) (simp_all add: handle_event_def same_text_def text_part_reset)
next
  case agent_end
  then show ?thesis using assms by (simp add: handle_event_def same_text_def)
next
  case other_event
  then show ?thesis using assms by (simp add: handle_event_def)
qed

lemma same_text_run_events:
  "same_text t s \<Longrightarrow> same_text (run p t (map emits evts)) (run p s (map emits evts))"
  unfolding run_def
  by (induction evts arbitrary: t s) (simp_all add: perform_def same_text_handle_event)


lemma subscribe_after_retry:
  "same_text (subscribe p (before @ auto_compaction_end True # after)) (subscribe p after)"
proof -
  have "same_text (run p initial (map emits (before @ [auto_compaction_end True]))) initial"
    by (simp add: run_def perform_def handle_event_def same_text_def text_part_reset)
  then have "same_text (run p (run p initial (map emits (before @ [auto_compaction_end True]))) (map emits after))
                       (run p initial (map emits after))"
    by (rule same_text_run_events)
  then show ?thesis by (simp add: subscribe_def run_def)
qed

text \<open>
  Claim C4. An \<open>auto_compaction_end\<close> with \<open>willRetry\<close> leaves \<open>assistantTexts\<close>, \<open>toolMetas\<close>,
  \<open>toolMetaById\<close>, \<open>deltaBuffer\<close> and \<open>blockBuffer\<close> empty, whatever the state before; and the
  \<open>assistantTexts\<close> and \<open>toolMetas\<close> at the end of a run are those of the events after the
  last such retry alone: nothing accumulated before it appears in them.
\<close>

theorem compaction_retry_resets_buffers:
  "assistantTexts (handle_event p (auto_compaction_end True) s) = [] \<and>
   toolMetas (handle_event p (auto_compaction_end True) s) = [] \<and>
   toolMetaById (handle_event p (auto_compaction_end True) s) = [] \<and>
   deltaBuffer (handle_event p (auto_compaction_end True) s) = [] \<and>
   blockBuffer (handle_event p (auto_compaction_end True) s) = [] \<and>
   assistantTexts (subscribe p (before @ auto_compaction_end True # after)) =
     assistantTexts (subscribe p after) \<and>
   toolMetas (subscribe p (before @ auto_compaction_end True # after)) =
     toolMetas (subscribe p after)"
  using same_text_fields(1,2) [OF subscribe_after_retry [of p before after]]
  by (simp add: handle_event_def resetForCompactionRetry_def)

definition before_retry :: "event list" where
  "before_retry =
     [agent_start, tool_execution_start (js ''read'') (js ''call1'') JNull,
      tool_execution_end (js ''read'') (js ''call1'') False JNull, text_end ''part A'',
      auto_compaction_start]"

definition after_retry :: "event list" where
  "after_retry = [text_delta ''part B'', message_end (assistant ''part B''), agent_end]"

lemma after_retry_result:
  "assistantTexts (subscribe plain after_retry) = [js ''part B''] \<and>
   toolMetas (subscribe plain after_retry) = []"
  by (simp add: after_retry_def handler_defs compaction_defs example_defs initial_def
      str_defs re_defs strip_defs Let_def)

lemma before_retry_result:
  "assistantTexts (subscribe plain before_retry) = [js ''part A''] \<and>
   toolMetas (subscribe plain before_retry) = [(js ''read'', None)]"
  by (simp add: before_retry_def handler_defs compaction_defs example_defs initial_def
      str_defs re_defs strip_defs Let_def get_meta_def)

theorem compaction_retry_resets_buffers_witness:
  "assistantTexts (subscribe plain before_retry) = [js ''part A''] \<and>
   toolMetas (subscribe plain before_retry) = [(js ''read'', None)] \<and>
   assistantTexts (subscribe plain (before_retry @ auto_compaction_end True # after_retry)) =
     [js ''part B''] \<and>
   toolMetas (subscribe plain (before_retry @ auto_compaction_end True # after_retry)) = []"
  using compaction_retry_resets_buffers [of plain initial before_retry after_retry]
    after_retry_result before_retry_result
  by simp


section \<open>What reaches onBlockReply\<close>

text \<open>The payloads that \<open>onBlockReply\<close> gets for one chunk: none or one.\<close>

definition delivered :: "params \<Rightarrow> jstring \<Rightarrow> payload list" where
  "delivered p chunk =
     (case splitMediaFromOutput p chunk of
        (cleanedText, m) \<Rightarrow>
          if cleanedText = [] \<and> \<not> has_media m then [] else [reply_payload cleanedText m])"

text \<open>
  The block stream is what the chunks handed to \<open>splitMediaFromOutput\<close> deliver, in order,
  and no such chunk is empty.
\<close>

definition replies_inv :: "params \<Rightarrow> state \<Rightarrow> bool" where
  "replies_inv p s \<longleftrightarrow>
     blockReplies s = concat (map (delivered p) (blockChunks s)) \<and> [] \<notin> set (blockChunks s)"

lemma replies_inv_update [simp]:
  "replies_inv p (s\<lparr>assistantTexts := a1\<rparr>) = replies_inv p s"
  "replies_inv p (s\<lparr>toolMetas := a2\<rparr>) = replies_inv p s"
  "replies_inv p (s\<lparr>toolMetaById := a3\<rparr>) = replies_inv p s"
  "replies_inv p (s\<lparr>deltaBuffer := a4\<rparr>) = replies_inv p s"
  "replies_inv p (s\<lparr>blockBuffer := a5\<rparr>) = replies_inv p s"
  "replies_inv p (s\<lparr>lastStreamedAssistant := a6\<rparr>) = replies_inv p s"
  "replies_inv p (s\<lparr>lastBlockReplyText := a7\<rparr>) = replies_inv p s"
  "replies_inv p (s\<lparr>assistantTextBaseline := a8\<rparr>) = replies_inv p s"
  "replies_inv p (s\<lparr>partialReplies := a9\<rparr>) = replies_inv p s"
  "replies_inv p (s\<lparr>agentEvents := b3\<rparr>) = replies_inv p s"
  "replies_inv p (s\<lparr>compactionInFlight := c1\<rparr>) = replies_inv p s"
  "replies_inv p (s\<lparr>pendingCompactionRetry := c2\<rparr>) = replies_inv p s"
  "replies_inv p (s\<lparr>compactionRetryResolve := c3\<rparr>) = replies_inv p s"
  "replies_inv p (s\<lparr>compactionRetryPromise := c4\<rparr>) = replies_inv p s"
  "replies_inv p (s\<lparr>promiseCount := c5\<rparr>) = replies_inv p s"
  "replies_inv p (s\<lparr>resolutions := c6\<rparr>) = replies_inv p s"
  "replies_inv p (s\<lparr>microtaskResolutions := c7\<rparr>) = replies_inv p s"
  by (simp_all add: replies_inv_def)














lemma delivered_nonempty:
  "r \<in> set (delivered p chunk) \<Longrightarrow> ptext r \<noteq> [] \<or> (\<exists>us. mediaUrls r = Some us \<and> us \<noteq> [])"
  by (auto simp: delivered_def reply_payload_def has_media_def split: prod.splits if_splits option.splits)

lemma trim_empty_trimEnd:
  assumes "trim s = []"
  shows "trimEnd s = []"
proof -
  from assms have all: "\<forall>x \<in> set (dropWhile is_ws s). is_ws x"
    by (simp add: trim_def trimEnd_def trimStart_def dropWhile_eq_Nil_conv)
  have "dropWhile is_ws s = []"
  proof (rule ccontr)
    assume ne: "dropWhile is_ws s \<noteq> []"
    then have "\<not> is_ws (hd (dropWhile is_ws s))" by (rule hd_dropWhile)
    moreover have "hd (dropWhile is_ws s) \<in> set (dropWhile is_ws s)" using ne by simp
    ultimately show False using all by blast
  qed
  then have "\<forall>x \<in> set s. is_ws x" by (simp add: dropWhile_eq_Nil_conv)
  then show ?thesis by (simp add: trimEnd_def dropWhile_eq_Nil_conv)
qed







lemma trimStart_empty_iff: "trimStart s = [] \<longleftrightarrow> (\<forall>c \<in> set s. is_ws c)"
  by (simp add: trimStart_def dropWhile_eq_Nil_conv)






text \<open>The chunks handed on since some point (\<open>base\<close> is the log then) all satisfy \<open>Q\<close>.\<close>

definition chunks_since :: "(jstring \<Rightarrow> bool) \<Rightarrow> jstring list \<Rightarrow> state \<Rightarrow> bool" where
  "chunks_since Q base s \<longleftrightarrow> (\<exists>new. blockChunks s = base @ new \<and> list_all Q new)"

lemma chunks_since_update [simp]:
  "chunks_since Q base (s\<lparr>assistantTexts := a1\<rparr>) = chunks_since Q base s"
  "chunks_since Q base (s\<lparr>toolMetas := a2\<rparr>) = chunks_since Q base s"
  "chunks_since Q base (s\<lparr>toolMetaById := a3\<rparr>) = chunks_since Q base s"
  "chunks_since Q base (s\<lparr>deltaBuffer := a4\<rparr>) = chunks_since Q base s"
  "chunks_since Q base (s\<lparr>blockBuffer := a5\<rparr>) = chunks_since Q base s"
  "chunks_since Q base (s\<lparr>lastStreamedAssistant := a6\<rparr>) = chunks_since Q base s"
  "chunks_since Q base (s\<lparr>lastBlockReplyText := a7\<rparr>) = chunks_since Q base s"
  "chunks_since Q base (s\<lparr>assistantTextBaseline := a8\<rparr>) = chunks_since Q base s"
  "chunks_since Q base (s\<lparr>partialReplies := a9\<rparr>) = chunks_since Q base s"
  "chunks_since Q base (s\<lparr>blockReplies := b1\<rparr>) = chunks_since Q base s"
  "chunks_since Q base (s\<lparr>agentEvents := b3\<rparr>) = chunks_since Q base s"
  "chunks_since Q base (s\<lparr>compactionInFlight := c1\<rparr>) = chunks_since Q base s"
  "chunks_since Q base (s\<lparr>pendingCompactionRetry := c2\<rparr>) = chunks_since Q base s"
  "chunks_since Q base (s\<lparr>compactionRetryResolve := c3\<rparr>) = chunks_since Q base s"
  "chunks_since Q base (s\<lparr>compactionRetryPromise := c4\<rparr>) = chunks_since Q base s"
  "chunks_since Q base (s\<lparr>promiseCount := c5\<rparr>) = chunks_since Q base s"
  "chunks_since Q base (s\<lparr>resolutions := c6\<rparr>) = chunks_since Q base s"
  "chunks_since Q base (s\<lparr>microtaskResolutions := c7\<rparr>) = chunks_since Q base s"
  by (simp_all add: chunks_since_def)










lemma blockChunks_compaction [simp]:
  "blockChunks (ensureCompactionPromise s) = blockChunks s"
  "blockChunks (call_resolve s) = blockChunks s"
  "blockChunks (noteCompactionRetry s) = blockChunks s"
  "blockChunks (resetForCompactionRetry s) = blockChunks s"
  "blockChunks (maybeResolveCompactionWait s) = blockChunks s"
  "blockChunks (resolveCompactionRetry s) = blockChunks s"
  by (simp_all add: ensureCompactionPromise_def call_resolve_def noteCompactionRetry_def
      resetForCompactionRetry_def maybeResolveCompactionWait_def resolveCompactionRetry_def Let_def
      split: option.splits)








text \<open>
  A subscriber that delivers blocks at \<open>message_end\<close>, and one whose media extraction
  leaves nothing of the chunk \<open>MEDIA:\<close>.
\<close>

definition whole_message :: params where
  "whole_message = plain\<lparr> blockReplyBreakParam := Some at_message_end \<rparr>"





text \<open>
  The claim as stated fails at \<open>message_end\<close>: the text of the message is not trimmed, and
  a text of three spaces is delivered as a block.
\<close>

theorem blank_text_delivered_at_message_end:
  "blockReplies (subscribe whole_message [message_end (assistant ''   '')]) =
     [\<lparr> ptext = js ''   '', mediaUrls = None \<rparr>] \<and>
   trim (js ''   '') = []"
  by (simp add: whole_message_def handler_defs example_defs initial_def str_defs re_defs strip_defs Let_def)


section \<open>Repeated chunks\<close>


text \<open>The same without the link to \<open>lastBlockReplyText\<close>, which a reset breaks.\<close>

definition chunks_distinct :: "jstring list \<Rightarrow> state \<Rightarrow> bool" where
  "chunks_distinct base s \<longleftrightarrow> (\<exists>new. blockChunks s = base @ new \<and> distinct_adj new)"



lemma chunks_distinct_update [simp]:
  "chunks_distinct base (s\<lparr>assistantTexts := a1\<rparr>) = chunks_distinct base s"
  "chunks_distinct base (s\<lparr>toolMetas := a2\<rparr>) = chunks_distinct base s"
  "chunks_distinct base (s\<lparr>toolMetaById := a3\<rparr>) = chunks_distinct base s"
  "chunks_distinct base (s\<lparr>deltaBuffer := a4\<rparr>) = chunks_distinct base s"
  "chunks_distinct base (s\<lparr>blockBuffer := a5\<rparr>) = chunks_distinct base s"
  "chunks_distinct base (s\<lparr>lastStreamedAssistant := a6\<rparr>) = chunks_distinct base s"
  "chunks_distinct base (s\<lparr>lastBlockReplyText := a7\<rparr>) = chunks_distinct base s"
  "chunks_distinct base (s\<lparr>assistantTextBaseline := a8\<rparr>) = chunks_distinct base s"
  by (simp_all add: chunks_distinct_def)



























section \<open>The size of chunks\<close>
















text \<open>
  A chunk that the chunker may emit: the slice \<open>raw\<close> of the buffer with its trailing white
  space removed, not empty, the slice being of at most \<open>maxC\<close> characters and, unless the
  buffer is being flushed, of \<open>minC\<close> or more.
\<close>

definition sized_chunk :: "nat \<Rightarrow> nat \<Rightarrow> bool \<Rightarrow> jstring \<Rightarrow> bool" where
  "sized_chunk minC maxC force x \<longleftrightarrow>
     x \<noteq> [] \<and> (\<exists>raw. x = trimEnd raw \<and> length raw \<le> maxC \<and> (force \<or> minC \<le> length raw))"

definition emits_sized :: "nat \<Rightarrow> nat \<Rightarrow> bool \<Rightarrow> jstring list \<Rightarrow> state \<Rightarrow> bool" where
  "emits_sized minC maxC force base s \<longleftrightarrow>
     (\<exists>new. blockChunks s = base @ new \<and> list_all (sized_chunk minC maxC force) new)"

lemma emits_sized_blockBuffer [simp]:
  "emits_sized minC maxC force base (s\<lparr>blockBuffer := b\<rparr>) = emits_sized minC maxC force base s"
  by (simp add: emits_sized_def)







section \<open>Concrete streams through the chunker\<close>

lemma cu_inj: "cu a = cu b \<longleftrightarrow> a = b"
  by (simp add: cu_def)

lemma js_simps [simp]:
  "js [] = []"
  "js a = [] \<longleftrightarrow> a = []"
  "[] = js a \<longleftrightarrow> a = []"
  "js a = js b \<longleftrightarrow> a = b"
  "js a @ js b = js (a @ b)"
  by (auto simp: js_def cu_inj inj_on_def intro!: inj_map_eq_map [THEN iffD1] injI)

lemmas drain_loop_emit_now = drain_loop_emit [OF _ _ _ refl]

lemmas chunk_eval = emitBlockChunk_def drainBlockBuffer_def minChars_of_def maxChars_of_def
  drain_loop_stop drain_loop_no_break drain_loop_blank drain_loop_emit_now

text \<open>The stream of scenario 5 of the specification, and its configuration.\<close>

definition three_lines :: string where
  "three_lines = ''Line one is here.\<newline>\<newline>Line two follows here.\<newline>\<newline>Line three.''"

definition chunked_20_40 :: params where
  "chunked_20_40 = plain\<lparr> blockReplyChunking :=
     Some \<lparr> minChars = 20, maxChars = 40, breakPreference = Some by_paragraph \<rparr> \<rparr>"

lemma chunked_20_40_simps [simp]:
  "hasOnBlockReply chunked_20_40" "hasOnPartialReply chunked_20_40"
  "blockReplyBreakParam chunked_20_40 = None"
  "blockReplyChunking chunked_20_40 =
     Some \<lparr> minChars = 20, maxChars = 40, breakPreference = Some by_paragraph \<rparr>"
  "\<not> enforceFinalTag chunked_20_40"
  "splitMediaFromOutput chunked_20_40 t = (t, None)"
  by (simp_all add: chunked_20_40_def plain_def no_media_def)

lemmas pick_defs = pickBreakIndex_def break_in_window_def findSentenceBreak_def
  findWhitespaceBreak_def minChars_of_def maxChars_of_def

lemma three_lines_facts:
  "length (js three_lines) = 54"
  "trim (stripThinkingSegments (js three_lines)) = js three_lines"
  "pickBreakIndex chunked_20_40 (js three_lines) = 35"
  "trim (slice (js three_lines) 0 35) \<noteq> []"
  "trimEnd (slice (js three_lines) 0 35) = js ''Line one is here.\<newline>\<newline>Line two follows''"
  "trimStart (drop (next_start (js three_lines) 35) (js three_lines)) =
     js ''here.\<newline>\<newline>Line three.''"
  by (simp_all add: three_lines_def chunked_20_40_def plain_def pick_defs next_start_def
      str_defs re_defs strip_defs del: js_simps)

lemma rest_facts:
  "length (js ''here.\<newline>\<newline>Line three.'') = 18"
  "trimEnd (js ''here.\<newline>\<newline>Line three.'') = js ''here.\<newline>\<newline>Line three.''"
  by (simp_all add: str_defs del: js_simps)


lemma three_lines_nonempty [simp]: "three_lines \<noteq> []"
  by (simp add: three_lines_def)

lemmas stream_eval = subscribe_def run_def perform_def handle_event_def on_message_update_def
  on_text_event_def buffer_chunk_def update_chunk_def drain_stream_def cleaned_of_def next_of_def
  stream_partial_def text_end_flush_def blockReplyBreak_def onBlockReply_def reply_payload_def
  has_media_def text_delta_def text_end_def assistant_def initial_def Let_def

text \<open>
  Claim C6, as amended: with \<open>minChars = 20\<close>, \<open>maxChars = 40\<close> and the paragraph preference,
  the input of scenario 5, streamed as one \<open>text_delta\<close> and closed by \<open>text_end\<close>, gives the
  two blocks \<open>"Line one is here.\n\nLine two follows"\<close> and \<open>"here.\n\nLine three."\<close>. The
  blank line after \<open>"Line one is here."\<close> is at index 17, below \<open>minChars\<close>, so the break is
  the last white space of the first 40 characters, at index 35.
\<close>

theorem scenario_5_blocks:
  "map ptext (blockReplies (subscribe chunked_20_40 [text_delta three_lines, text_end []])) =
     [js ''Line one is here.\<newline>\<newline>Line two follows'', js ''here.\<newline>\<newline>Line three.'']"
  by (simp add: stream_eval chunk_eval three_lines_facts rest_facts)

text \<open>
  The blocks that the claim expects are not produced, whether the input arrives as one
  delta or paragraph by paragraph.
\<close>

lemma two_paragraphs_facts:
  "length (js ''Line one is here.\<newline>\<newline>'') = 19"
  "trim (stripThinkingSegments (js ''Line one is here.\<newline>\<newline>'')) = js ''Line one is here.''"
  "length (js ''Line one is here.\<newline>\<newline>Line two follows here.\<newline>\<newline>'') = 43"
  "trim (stripThinkingSegments (js ''Line one is here.\<newline>\<newline>Line two follows here.\<newline>\<newline>'')) =
     js ''Line one is here.\<newline>\<newline>Line two follows here.''"
  "pickBreakIndex chunked_20_40 (js ''Line one is here.\<newline>\<newline>Line two follows here.\<newline>\<newline>'') = 35"
  "trim (slice (js ''Line one is here.\<newline>\<newline>Line two follows here.\<newline>\<newline>'') 0 35) \<noteq> []"
  "trimEnd (slice (js ''Line one is here.\<newline>\<newline>Line two follows here.\<newline>\<newline>'') 0 35) =
     js ''Line one is here.\<newline>\<newline>Line two follows''"
  "trimStart (drop (next_start (js ''Line one is here.\<newline>\<newline>Line two follows here.\<newline>\<newline>'') 35)
     (js ''Line one is here.\<newline>\<newline>Line two follows here.\<newline>\<newline>'')) = js ''here.\<newline>\<newline>''"
  "length (js ''here.\<newline>\<newline>'') = 7"
  "trim (stripThinkingSegments (js ''Line one is here.\<newline>\<newline>Line two follows here.\<newline>\<newline>Line three.'')) =
     js ''Line one is here.\<newline>\<newline>Line two follows here.\<newline>\<newline>Line three.''"
  by (simp_all add: chunked_20_40_def plain_def pick_defs next_start_def
      str_defs re_defs strip_defs del: js_simps)

lemma scenario_5_by_paragraph:
  "map ptext (blockReplies (subscribe chunked_20_40
     [text_delta ''Line one is here.\<newline>\<newline>'', text_delta ''Line two follows here.\<newline>\<newline>'',
      text_delta ''Line three.'', text_end []])) =
     [js ''Line one is here.\<newline>\<newline>Line two follows'', js ''here.\<newline>\<newline>Line three.'']"
  by (simp add: stream_eval chunk_eval two_paragraphs_facts rest_facts)

theorem scenario_5_expected_blocks_not_produced:
  "map ptext (blockReplies (subscribe chunked_20_40 [text_delta three_lines, text_end []])) \<noteq>
     [js ''Line one is here.'', js ''Line two follows here.'', js ''Line three.''] \<and>
   map ptext (blockReplies (subscribe chunked_20_40
     [text_delta ''Line one is here.\<newline>\<newline>'', text_delta ''Line two follows here.\<newline>\<newline>'',
      text_delta ''Line three.'', text_end []])) \<noteq>
     [js ''Line one is here.'', js ''Line two follows here.'', js ''Line three.'']"
  by (simp add: scenario_5_by_paragraph)
     (simp add: stream_eval chunk_eval three_lines_facts rest_facts)


subsection \<open>A chunk shorter than minChars\<close>

definition chunked_5_10 :: params where
  "chunked_5_10 = plain\<lparr> blockReplyChunking :=
     Some \<lparr> minChars = 5, maxChars = 10, breakPreference = None \<rparr> \<rparr>"

lemma chunked_5_10_simps [simp]:
  "hasOnBlockReply chunked_5_10" "hasOnPartialReply chunked_5_10"
  "blockReplyBreakParam chunked_5_10 = None"
  "blockReplyChunking chunked_5_10 = Some \<lparr> minChars = 5, maxChars = 10, breakPreference = None \<rparr>"
  "\<not> enforceFinalTag chunked_5_10"
  "splitMediaFromOutput chunked_5_10 t = (t, None)"
  by (simp_all add: chunked_5_10_def plain_def no_media_def)




subsection \<open>Thinking text in the block stream\<close>

definition chunked_1_100 :: params where
  "chunked_1_100 = plain\<lparr> blockReplyChunking :=
     Some \<lparr> minChars = 1, maxChars = 100, breakPreference = None \<rparr> \<rparr>"

lemma chunked_1_100_simps [simp]:
  "hasOnBlockReply chunked_1_100" "hasOnPartialReply chunked_1_100"
  "blockReplyBreakParam chunked_1_100 = None"
  "blockReplyChunking chunked_1_100 = Some \<lparr> minChars = 1, maxChars = 100, breakPreference = None \<rparr>"
  "\<not> enforceFinalTag chunked_1_100"
  "splitMediaFromOutput chunked_1_100 t = (t, None)"
  by (simp_all add: chunked_1_100_def plain_def no_media_def)

lemma plain_simps [simp]:
  "hasOnBlockReply plain" "hasOnPartialReply plain"
  "blockReplyBreakParam plain = None"
  "blockReplyChunking plain = None"
  "\<not> enforceFinalTag plain"
  "splitMediaFromOutput plain t = (t, None)"
  "extractAssistantText plain m = content_text m"
  by (simp_all add: plain_def no_media_def)

lemma thinking_facts:
  "length (js ''<think>secret</think>Hello'') = 26"
  "trim (stripThinkingSegments (js ''<think>secret</think>Hello'')) = js ''Hello''"
  "pickBreakIndex chunked_1_100 (js ''<think>secret</think>Hello'') = - 1"
  "trimEnd (js ''<think>secret</think>Hello'') = js ''<think>secret</think>Hello''"
  by (simp_all add: chunked_1_100_def plain_def pick_defs next_start_def
      str_defs re_defs strip_defs del: js_simps)

text \<open>
  Claim C1 fails on the code. With block chunking configured the blocks are cut from
  \<open>blockBuffer\<close>, which holds the raw deltas: \<open>stripThinkingSegments\<close> is applied to
  \<open>deltaBuffer\<close> for the partial stream and for the blocks of the path without chunking, but
  never to \<open>blockBuffer\<close>. The stream \<open><think>secret</think>Hello\<close> reaches \<open>onBlockReply\<close>
  whole when chunking is on; the partial stream, and the block stream without chunking,
  get \<open>Hello\<close>.
\<close>

theorem thinking_text_in_chunked_blocks:
  "map ptext (blockReplies (subscribe chunked_1_100
     [text_delta ''<think>secret</think>Hello'', text_end []])) =
     [js ''<think>secret</think>Hello''] \<and>
   map ptext (partialReplies (subscribe chunked_1_100
     [text_delta ''<think>secret</think>Hello'', text_end []])) = [js ''Hello''] \<and>
   map ptext (blockReplies (subscribe plain
     [text_delta ''<think>secret</think>Hello'', text_end []])) = [js ''Hello'']"
  by (simp add: stream_eval chunk_eval thinking_facts)


section \<open>Publishing the final region\<close>














lemma blockChunks_stream_partial [simp]:
  "blockChunks (stream_partial p nxt s) = blockChunks s"
  "lastBlockReplyText (stream_partial p nxt s) = lastBlockReplyText s"
  "blockBuffer (stream_partial p nxt s) = blockBuffer s"
  by (simp_all add: stream_partial_def split: prod.splits)

lemma blockChunks_onBlockReply [simp]:
  "blockChunks (onBlockReply p chunk s) = blockChunks s @ [chunk]"
  by (simp add: onBlockReply_def Let_def split: prod.splits)







end
